theory Spec2Isabelle
  imports Complex_Main "HOL-Library.Product_Lexorder"
begin

section \<open>The scheduling engine of scheduleRoutes.ts\<close>

text \<open>
  The engine (class \<open>SchedulingEngine\<close>) turns a week's busy periods into free slots,
  scores and chunks the tasks, and assigns the chunks greedily to the slots.

  Numbers. Minutes, day indices and millisecond timestamps are integers (\<open>int\<close>,
  \<open>nat\<close> for loop counters). Hours are JavaScript numbers: a value is the real number
  that the double stands for, and the operations whose rounding reaches an integer
  result (the chunk count, the hours of a chunk, the minutes of a session) round as
  binary64 does, see \<open>toDouble\<close>. A priority score is kept as the exact value of its
  expression; scores are only compared.

  Dates. A \<open>Date\<close> used for a calendar position is an instant counted in minutes; the
  host's time zone, which the local-time methods \<open>setDate\<close> and \<open>setHours\<close> go
  through, is a parameter. A \<open>Date\<close> used for scoring is counted in milliseconds.

  Clock. \<open>new Date()\<close> and \<open>Date.now()\<close> read the wall clock. A run receives a
  \<open>clock\<close>, the function giving the value of its n-th read, and counts its reads.
\<close>

subsection \<open>Data model (shared/types/scheduling, tasks, activities)\<close>

text \<open>The due date of a task is the string \<open>'TBD'\<close> or a date string, kept as the
  millisecond timestamp that \<open>new Date(task.dueDate).getTime()\<close> gives.\<close>

datatype DueDate = TBD | Due int

text \<open>Modelled from the spec: the declaration of \<open>TodoItem\<close> (shared/types/tasks) is
  not among the sources. The fields are those the engine reads: identifier, title,
  optional notes, due date or undated marker, optional estimated effort in hours,
  completion flag, optional activity reference.\<close>

record TodoItem =
  t_id :: string
  t_title :: string
  t_notes :: "string option"
  t_dueDate :: DueDate
  t_estimatedHours :: "real option"
  t_completed :: bool
  t_activityId :: "string option"

text \<open>Modelled from the spec: the declarations of \<open>TimeBlock\<close>, \<open>BusyTimeNode\<close> and
  \<open>BusyTimeList\<close> (shared/types/activities) are not among the sources. A time block
  has a day index, start and end in minutes since midnight and a type tag; a busy-time
  list is a singly linked chain of \<open>[start, end]\<close> pairs with its length.\<close>

record TimeBlock =
  tb_day :: int
  tb_startTime :: int
  tb_endTime :: int
  tb_type :: string

datatype BusyTimeNode = BusyTimeNode (data: "int \<times> int") (next_node: "BusyTimeNode option")

record BusyTimeList =
  head :: "BusyTimeNode option"
  bl_size :: nat

record AvailableTimeSlot =
  start :: int
  end' :: int
  duration :: int
  day :: nat

record TaskChunk =
  taskId :: string
  title :: string
  c_notes :: "string option"
  estimatedHours :: real
  priority :: real
  dueDate :: DueDate
  activityId :: "string option"
  chunkIndex :: nat
  totalChunks :: int

text \<open>\<open>daysUntilDue\<close> is a number of days or JavaScript's \<open>Infinity\<close>.\<close>

datatype DaysUntilDue = Days int | Infinity

record PriorityResult =
  p_taskId :: string
  p_priority :: real
  urgencyMultiplier :: real
  basePriority :: real
  daysUntilDue :: DaysUntilDue
  averageHoursPerDay :: real

record ScheduledStudySession =
  s_id :: string
  s_taskId :: string
  s_title :: string
  s_notes :: "string option"
  startTime :: int
  endTime :: int
  dayOfWeek :: nat
  s_chunkIndex :: "nat option"
  calculatedPriority :: real
  s_activityId :: "string option"

record GeneratedSchedule =
  userId :: string
  weekStartDate :: int
  sessions :: "ScheduledStudySession list"
  generatedAt :: int
  version :: nat

record SchedulingConfig =
  maxSessionLength :: int
  minSessionLength :: int
  bufferTime :: int
  maxStudyHoursPerWeek :: int

definition DEFAULT_SCHEDULING_CONFIG :: SchedulingConfig where
  "DEFAULT_SCHEDULING_CONFIG =
     \<lparr>maxSessionLength = 60, minSessionLength = 5, bufferTime = 5, maxStudyHoursPerWeek = 20\<rparr>"

type_synonym clock = "nat \<Rightarrow> int"

subsection \<open>Numbers in template strings, remainder\<close>

definition digitChar :: "nat \<Rightarrow> char" where
  "digitChar d = char_of (48 + d)"

function showNat :: "nat \<Rightarrow> string" where
  "showNat n = (if n < 10 then [digitChar n] else showNat (n div 10) @ [digitChar (n mod 10)])"
  by pat_completeness auto
termination
  by (relation "measure (\<lambda>n. n)") auto

declare showNat.simps [simp del]

text \<open>The decimal rendering of an integer in a template string.\<close>

definition showInt :: "int \<Rightarrow> string" where
  "showInt i = (if i < 0 then CHR ''-'' # showNat (nat (- i)) else showNat (nat i))"

text \<open>JavaScript's \<open>a % b\<close> on integers: the remainder has the sign of \<open>a\<close>.\<close>

definition js_rem :: "int \<Rightarrow> int \<Rightarrow> int" where
  "js_rem a b = sgn a * (\<bar>a\<bar> mod \<bar>b\<bar>)"

subsection \<open>Double-precision arithmetic\<close>

text \<open>The binary exponent of a positive number: the \<open>e\<close> with
  \<open>2^e \<le> x < 2^(e+1)\<close>, found by halving from 1 upwards and doubling below 1.\<close>

function expUp :: "real \<Rightarrow> int" where
  "expUp x = (if 2 \<le> x then expUp (x / 2) + 1 else 0)"
  by pat_completeness auto
termination
proof (relation "measure (\<lambda>x. nat \<lfloor>x\<rfloor>)")
  show "wf (measure (\<lambda>x::real. nat \<lfloor>x\<rfloor>))" by simp
next
  fix x :: real
  assume x: "2 \<le> x"
  then have "x / 2 \<le> x - 1" by simp
  then have "\<lfloor>x / 2\<rfloor> \<le> \<lfloor>x - 1\<rfloor>" by (rule floor_mono)
  also have "\<dots> = \<lfloor>x\<rfloor> - 1" by simp
  finally have "\<lfloor>x / 2\<rfloor> < \<lfloor>x\<rfloor>" by simp
  moreover from x have "0 < \<lfloor>x\<rfloor>" by simp
  ultimately show "(x / 2, x) \<in> measure (\<lambda>x. nat \<lfloor>x\<rfloor>)" by simp
qed

function expDown :: "real \<Rightarrow> int" where
  "expDown x = (if 0 < x \<and> x < 1 then expDown (x * 2) - 1 else 0)"
  by pat_completeness auto
termination
proof (relation "measure (\<lambda>x. nat \<lceil>1 / x\<rceil>)")
  show "wf (measure (\<lambda>x::real. nat \<lceil>1 / x\<rceil>))" by simp
next
  fix x :: real
  assume x: "0 < x \<and> x < 1"
  then have y: "1 < 1 / x" by simp
  then have c: "2 \<le> \<lceil>1 / x\<rceil>" by linarith
  have "1 / (x * 2) = (1 / x) / 2" by simp
  also have "\<dots> \<le> real_of_int \<lceil>1 / x\<rceil> / 2" by (simp add: divide_right_mono)
  also have "\<dots> \<le> real_of_int (\<lceil>1 / x\<rceil> - 1)" using c by simp
  finally have "\<lceil>1 / (x * 2)\<rceil> \<le> \<lceil>1 / x\<rceil> - 1" by (rule ceiling_le)
  with c x show "(x * 2, x) \<in> measure (\<lambda>x. nat \<lceil>1 / x\<rceil>)" by simp
qed

declare expUp.simps [simp del] expDown.simps [simp del]

definition exponent :: "real \<Rightarrow> int" where
  "exponent x = (if 1 \<le> x then expUp x else expDown x)"

text \<open>Rounding to the nearest integer, a tie going to the even one.\<close>

definition roundEven :: "real \<Rightarrow> int" where
  "roundEven y =
     (let f = \<lfloor>y\<rfloor>; d = y - real_of_int f
      in if d < 1 / 2 then f
         else if 1 / 2 < d then f + 1
         else if even f then f else f + 1)"

text \<open>The double nearest to a real number: 53 significant bits, ties to even. The
  exponent range is not bounded: overflow to \<open>Infinity\<close> (beyond about 1.8e308) and
  the subnormal numbers (below about 2.2e-308) are not modelled.\<close>

definition toDouble :: "real \<Rightarrow> real" where
  "toDouble x =
     (if x = 0 then 0
      else (let ulp = 2 powi (exponent \<bar>x\<bar> - 52)
            in sgn x * (real_of_int (roundEven (\<bar>x\<bar> / ulp)) * ulp)))"

text \<open>JavaScript's \<open>a * b\<close>, \<open>a / b\<close> (for \<open>b\<close> other than 0) and \<open>a - b\<close> on
  doubles: the exact result, rounded.\<close>

definition jsMul :: "real \<Rightarrow> real \<Rightarrow> real" where
  "jsMul a b = toDouble (a * b)"

definition jsDiv :: "real \<Rightarrow> real \<Rightarrow> real" where
  "jsDiv a b = toDouble (a / b)"

definition jsSub :: "real \<Rightarrow> real \<Rightarrow> real" where
  "jsSub a b = toDouble (a - b)"

subsection \<open>convertTimeBlocksToBusyTimeLists\<close>

text \<open>The chain built by appending one node per block at the tail.\<close>

fun toNodes :: "(int \<times> int) list \<Rightarrow> BusyTimeNode option" where
  "toNodes [] = None"
| "toNodes (d # ds) = Some (BusyTimeNode d (toNodes ds))"

text \<open>Blocks tagged \<open>busy\<close> are grouped by day and each day's group is sorted by start
  time (\<open>Array.prototype.sort\<close> is stable, as \<open>sort_key\<close> is); a block whose day is
  not one of 0..6 is never read.\<close>

definition convertTimeBlocksToBusyTimeLists :: "TimeBlock list \<Rightarrow> BusyTimeList list" where
  "convertTimeBlocksToBusyTimeLists timeBlocks =
     map (\<lambda>day.
        let dayTimeBlocks =
              sort_key tb_startTime
                (filter (\<lambda>timeBlock. tb_type timeBlock = ''busy'' \<and> tb_day timeBlock = int day)
                   timeBlocks)
        in \<lparr>head = toNodes (map (\<lambda>timeBlock. (tb_startTime timeBlock, tb_endTime timeBlock))
                             dayTimeBlocks),
            bl_size = length dayTimeBlocks\<rparr>)
       [0..<7]"

text \<open>The \<open>[start, end]\<close> pairs that the chain of a day holds.\<close>

definition dayBusy :: "TimeBlock list \<Rightarrow> nat \<Rightarrow> (int \<times> int) list" where
  "dayBusy timeBlocks dy =
     map (\<lambda>timeBlock. (tb_startTime timeBlock, tb_endTime timeBlock))
       (sort_key tb_startTime
         (filter (\<lambda>timeBlock. tb_type timeBlock = ''busy'' \<and> tb_day timeBlock = int dy)
            timeBlocks))"

subsection \<open>calculateAvailableTimeSlots\<close>

text \<open>The \<open>while (current)\<close> walk along the chain.\<close>

fun nodeData :: "BusyTimeNode option \<Rightarrow> (int \<times> int) list" where
  "nodeData None = []"
| "nodeData (Some (BusyTimeNode d nx)) = d # nodeData nx"

definition endOfDay :: int where
  "endOfDay = 1440"

text \<open>The \<open>for\<close> loop over the sorted busy times, with its two variables
  \<open>currentTime\<close> and \<open>availableSlots\<close>; it returns both.\<close>

fun sweep :: "SchedulingConfig \<Rightarrow> nat \<Rightarrow> (int \<times> int) list \<Rightarrow> int \<Rightarrow> AvailableTimeSlot list
    \<Rightarrow> AvailableTimeSlot list \<times> int" where
  "sweep cfg dy [] currentTime availableSlots = (availableSlots, currentTime)"
| "sweep cfg dy ((startT, endT) # rest) currentTime availableSlots =
     (let availableDuration = startT - currentTime - (bufferTime cfg * 2)
      in sweep cfg dy rest endT
           (if availableDuration \<ge> minSessionLength cfg
            then availableSlots @
                   [\<lparr>start = currentTime + bufferTime cfg,
                     end' = startT - bufferTime cfg,
                     duration = availableDuration,
                     day = dy\<rparr>]
            else availableSlots))"

text \<open>The slot pushed after the loop, if any.\<close>

definition trailingSlot :: "SchedulingConfig \<Rightarrow> nat \<Rightarrow> int \<Rightarrow> AvailableTimeSlot list" where
  "trailingSlot cfg dy currentTime =
     (let finalAvailableDuration = endOfDay - currentTime - bufferTime cfg
      in if finalAvailableDuration \<ge> minSessionLength cfg
         then [\<lparr>start = currentTime + bufferTime cfg,
                end' = endOfDay - bufferTime cfg,
                duration = finalAvailableDuration,
                day = dy\<rparr>]
         else [])"

definition calculateAvailableTimeSlots :: "SchedulingConfig \<Rightarrow> BusyTimeList \<Rightarrow> nat
    \<Rightarrow> AvailableTimeSlot list" where
  "calculateAvailableTimeSlots cfg busyTimeList dy =
     (let sortedBusyTimes = sort_key fst (nodeData (head busyTimeList));
          (availableSlots, currentTime) = sweep cfg dy sortedBusyTimes 0 []
      in availableSlots @ trailingSlot cfg dy currentTime)"

subsection \<open>calculatePriority\<close>

text \<open>\<open>task.estimatedHours || 1\<close>: an absent field and the number 0 are both falsy.\<close>

definition effortHours :: "TodoItem \<Rightarrow> real" where
  "effortHours task =
     (case t_estimatedHours task of
        None \<Rightarrow> 1
      | Some h \<Rightarrow> if h = 0 then 1 else h)"

definition msPerDay :: int where
  "msPerDay = 1000 * 60 * 60 * 24"

text \<open>The first chain of conditions of \<open>calculatePriority\<close>.\<close>

definition urgencyTier :: "real \<Rightarrow> int \<Rightarrow> real" where
  "urgencyTier estHours days =
     (if days \<le> 0 then 100
      else if estHours < 3 \<and> days \<le> 1 then 10
      else if estHours < 6 \<and> days \<le> 2 then 8
      else if estHours < 12 \<and> days \<le> 3 then 6
      else if estHours < 18 \<and> days \<le> 4 then 4
      else if days \<le> 5 then 2
      else 1)"

text \<open>The second chain (\<open>Check for impossible deadlines\<close>), applied to the multiplier
  the first chain left.\<close>

definition impossibleDeadline :: "real \<Rightarrow> int \<Rightarrow> real \<Rightarrow> real" where
  "impossibleDeadline estHours days urgency =
     (if days \<le> 0 then 100
      else if estHours > real_of_int (days * 8) then 50
      else urgency)"

text \<open>\<open>now\<close> is the value of \<open>new Date()\<close> at the call, in milliseconds.\<close>

definition calculatePriority :: "int \<Rightarrow> TodoItem \<Rightarrow> PriorityResult" where
  "calculatePriority now task =
     (case t_dueDate task of
        TBD \<Rightarrow>
          \<lparr>p_taskId = t_id task, p_priority = 0.1, urgencyMultiplier = 1, basePriority = 0.1,
           daysUntilDue = Infinity, averageHoursPerDay = 0\<rparr>
      | Due dueMs \<Rightarrow>
          (let days = \<lceil>real_of_int (dueMs - now) / real_of_int msPerDay\<rceil>;
               estHours = effortHours task;
               avgHoursPerDay = estHours / real_of_int (max days 1);
               basePrio = avgHoursPerDay;
               urgency = impossibleDeadline estHours days (urgencyTier estHours days)
           in \<lparr>p_taskId = t_id task, p_priority = basePrio * urgency,
               urgencyMultiplier = urgency, basePriority = basePrio,
               daysUntilDue = Days days, averageHoursPerDay = avgHoursPerDay\<rparr>))"

subsection \<open>createTaskChunks\<close>

definition partTitle :: "string \<Rightarrow> nat \<Rightarrow> int \<Rightarrow> string" where
  "partTitle taskTitle i nChunks =
     taskTitle @ '' (Part '' @ showNat (i + 1) @ '' of '' @ showInt nChunks @ '')''"

text \<open>The object pushed for the i-th chunk (i counts from 0).\<close>

definition newChunk :: "TodoItem \<Rightarrow> int \<Rightarrow> nat \<Rightarrow> real \<Rightarrow> TaskChunk" where
  "newChunk task nChunks i chunkHours =
     \<lparr>taskId = t_id task,
      title = (if nChunks > 1 then partTitle (t_title task) i nChunks else t_title task),
      c_notes = t_notes task,
      estimatedHours = chunkHours,
      priority = 0,
      dueDate = t_dueDate task,
      activityId = t_activityId task,
      chunkIndex = i,
      totalChunks = nChunks\<rparr>"

text \<open>The \<open>for (let i = 0; i < totalChunks; i++)\<close> loop with its variables
  \<open>remainingHours\<close> and \<open>chunks\<close>.\<close>

function chunkLoop :: "TodoItem \<Rightarrow> real \<Rightarrow> int \<Rightarrow> nat \<Rightarrow> real \<Rightarrow> TaskChunk list
    \<Rightarrow> TaskChunk list" where
  "chunkLoop task maxChunkHours nChunks i remainingHours chunks =
     (if int i < nChunks
      then (let chunkHours = min remainingHours maxChunkHours
            in chunkLoop task maxChunkHours nChunks (i + 1) (jsSub remainingHours chunkHours)
                 (chunks @ [newChunk task nChunks i chunkHours]))
      else chunks)"
  by pat_completeness auto
termination
  by (relation "measure (\<lambda>(task, maxChunkHours, nChunks, i, r, chunks). nat (nChunks - int i))") auto

declare chunkLoop.simps [simp del]

text \<open>\<open>maxSessionLength / 60\<close> is 0 only for \<open>maxSessionLength = 0\<close>; the quotient
  \<open>estimatedHours / maxChunkHours\<close> is then \<open>Infinity\<close> for a positive effort (the
  loop never ends: no result, \<open>None\<close>) and \<open>-Infinity\<close> for a negative one (the loop
  body never runs). The effort is never 0.\<close>

definition createTaskChunks :: "SchedulingConfig \<Rightarrow> TodoItem \<Rightarrow> TaskChunk list option" where
  "createTaskChunks cfg task =
     (let estHours = effortHours task;
          maxChunkHours = jsDiv (real_of_int (maxSessionLength cfg)) 60
      in if maxChunkHours = 0
         then (if estHours > 0 then None else Some [])
         else Some (chunkLoop task maxChunkHours \<lceil>jsDiv estHours maxChunkHours\<rceil> 0 estHours []))"

subsection \<open>findBestTimeSlot, createStudySession\<close>

definition slotKey :: "AvailableTimeSlot \<Rightarrow> string" where
  "slotKey slot =
     showNat (day slot) @ ''-'' @ showInt (start slot) @ ''-'' @ showInt (end' slot)"

text \<open>The comparator of \<open>suitableSlots.sort\<close> orders by day, then start, then longer
  duration first: the lexicographic order of this key. The sort is stable.\<close>

definition slotPreference :: "AvailableTimeSlot \<Rightarrow> nat \<times> int \<times> int" where
  "slotPreference slot = (day slot, start slot, - duration slot)"

text \<open>\<open>availableSlotsByDay\<close> has seven entries whenever \<open>generateSchedule\<close> calls.\<close>

definition findBestTimeSlot :: "AvailableTimeSlot list list \<Rightarrow> int \<Rightarrow> DueDate \<Rightarrow> string set
    \<Rightarrow> AvailableTimeSlot option" where
  "findBestTimeSlot availableSlotsByDay durationMinutes due usedSlots =
     (let suitableSlots =
            filter (\<lambda>slot. slotKey slot \<notin> usedSlots \<and> duration slot \<ge> durationMinutes)
              (concat (map (\<lambda>dy. availableSlotsByDay ! dy) [0..<7]))
      in if suitableSlots = [] then None
         else Some (hd (sort_key slotPreference suitableSlots)))"

text \<open>The host's time zone, as the two conversions of the language: the local
  wall-clock time of an instant (\<open>LocalTime\<close>) and the instant of a local wall-clock
  time (\<open>UTC\<close>), both in minutes. A local time counts 1440 minutes for every calendar
  day. Where the clocks are put forward the skipped local times get the instant of a
  later local time, so \<open>utcOf\<close> need not be one-to-one.\<close>

record TimeZone =
  localOf :: "int \<Rightarrow> int"
  utcOf :: "int \<Rightarrow> int"

text \<open>A host that runs on universal time.\<close>

definition utcZone :: TimeZone where
  "utcZone = \<lparr>localOf = (\<lambda>t. t), utcOf = (\<lambda>t. t)\<rparr>"

text \<open>The midnight that starts the calendar day of a local time.\<close>

definition localMidnight :: "int \<Rightarrow> int" where
  "localMidnight l = (l div 1440) * 1440"

text \<open>\<open>d.setDate(d.getDate() + n)\<close>: the same local time of day, \<open>n\<close> calendar days
  later.\<close>

definition addDays :: "TimeZone \<Rightarrow> int \<Rightarrow> int \<Rightarrow> int" where
  "addDays zone date n = utcOf zone (localOf zone date + n * 1440)"

text \<open>\<open>d.setHours(h, m, 0, 0)\<close>: the local time \<open>h:m\<close> on the calendar day of
  \<open>d\<close>; hours and minutes outside a day's range carry into the neighbouring days.\<close>

definition setHours :: "TimeZone \<Rightarrow> int \<Rightarrow> int \<Rightarrow> int \<Rightarrow> int" where
  "setHours zone date h m = utcOf zone (localMidnight (localOf zone date) + h * 60 + m)"

text \<open>The minutes after midnight that \<open>setHours(Math.floor(m / 60), m % 60, 0, 0)\<close>
  asks for.\<close>

definition setHoursOffset :: "int \<Rightarrow> int" where
  "setHoursOffset m = (m div 60) * 60 + js_rem m 60"

text \<open>\<open>weekStartDate\<close> is an instant in minutes; \<open>nowMs\<close> is the value of
  \<open>Date.now()\<close> at the call.\<close>

definition createStudySession :: "TimeZone \<Rightarrow> TaskChunk \<Rightarrow> AvailableTimeSlot \<Rightarrow> int \<Rightarrow> int
    \<Rightarrow> ScheduledStudySession" where
  "createStudySession zone chunk slot weekStart nowMs =
     (let sessionDate = addDays zone weekStart (int (day slot));
          endMinute = start slot + \<lceil>jsMul (estimatedHours chunk) 60\<rceil>
      in \<lparr>s_id = ''session-'' @ taskId chunk @ ''-'' @ showNat (chunkIndex chunk) @ ''-'' @
                  showInt nowMs,
          s_taskId = taskId chunk,
          s_title = title chunk,
          s_notes = c_notes chunk,
          startTime = setHours zone sessionDate (start slot div 60) (js_rem (start slot) 60),
          endTime = setHours zone sessionDate (endMinute div 60) (js_rem endMinute 60),
          dayOfWeek = day slot,
          s_chunkIndex = (if totalChunks chunk > 1 then Some (chunkIndex chunk + 1) else None),
          calculatedPriority = priority chunk,
          s_activityId = activityId chunk\<rparr>)"

subsection \<open>generateSchedule\<close>

text \<open>The body of the loop over the incomplete tasks: the task is scored, chunked, and
  every chunk is stamped with the task's priority. \<open>now\<close> is the clock read by
  \<open>calculatePriority\<close>. (\<open>priorityResults\<close> is written but never read.)\<close>

definition scoreTask :: "SchedulingConfig \<Rightarrow> int \<Rightarrow> TodoItem \<Rightarrow> TaskChunk list option" where
  "scoreTask cfg now task =
     (let priorityResult = calculatePriority now task
      in case createTaskChunks cfg task of
           None \<Rightarrow> None
         | Some chunks \<Rightarrow>
             Some (map (\<lambda>chunk. chunk\<lparr>priority := p_priority priorityResult\<rparr>) chunks))"

text \<open>The loop: each task reads the clock once and appends its chunks.\<close>

fun scoreAndChunk :: "SchedulingConfig \<Rightarrow> clock \<Rightarrow> TodoItem list \<Rightarrow> nat \<Rightarrow> TaskChunk list
    \<Rightarrow> (TaskChunk list \<times> nat) option" where
  "scoreAndChunk cfg clk [] reads taskChunks = Some (taskChunks, reads)"
| "scoreAndChunk cfg clk (task # rest) reads taskChunks =
     (case scoreTask cfg (clk reads) task of
        None \<Rightarrow> None
      | Some chunks \<Rightarrow> scoreAndChunk cfg clk rest (reads + 1) (taskChunks @ chunks))"

text \<open>The allocation loop with its variables \<open>sessions\<close> and \<open>usedSlots\<close> and the
  count of clock reads.\<close>

fun allocate :: "TimeZone \<Rightarrow> AvailableTimeSlot list list \<Rightarrow> int \<Rightarrow> clock \<Rightarrow> TaskChunk list
    \<Rightarrow> ScheduledStudySession list \<times> string set \<times> nat
    \<Rightarrow> ScheduledStudySession list \<times> string set \<times> nat" where
  "allocate zone availableSlotsByDay weekStart clk [] st = st"
| "allocate zone availableSlotsByDay weekStart clk (chunk # rest) (sess, usedSlots, reads) =
     (let chunkDurationMinutes = \<lceil>jsMul (estimatedHours chunk) 60\<rceil>
      in case findBestTimeSlot availableSlotsByDay chunkDurationMinutes (dueDate chunk) usedSlots of
           None \<Rightarrow> allocate zone availableSlotsByDay weekStart clk rest (sess, usedSlots, reads)
         | Some bestSlot \<Rightarrow>
             allocate zone availableSlotsByDay weekStart clk rest
               (sess @ [createStudySession zone chunk bestSlot weekStart (clk reads)],
                insert (slotKey bestSlot) usedSlots,
                reads + 1))"

definition availableSlots :: "SchedulingConfig \<Rightarrow> TimeBlock list \<Rightarrow> AvailableTimeSlot list list" where
  "availableSlots cfg timeBlocks =
     (let busyTimeLists = convertTimeBlocksToBusyTimeLists timeBlocks
      in map (\<lambda>dy. calculateAvailableTimeSlots cfg (busyTimeLists ! dy) dy) [0..<7])"

text \<open>The chunks of the incomplete tasks after \<open>taskChunks.sort\<close> (stable, highest
  priority first), with the number of clock reads so far.\<close>

definition allocationQueue :: "SchedulingConfig \<Rightarrow> clock \<Rightarrow> TodoItem list
    \<Rightarrow> (TaskChunk list \<times> nat) option" where
  "allocationQueue cfg clk incompleteTasks =
     (case scoreAndChunk cfg clk incompleteTasks 0 [] of
        None \<Rightarrow> None
      | Some (taskChunks, reads) \<Rightarrow> Some (sort_key (\<lambda>chunk. - priority chunk) taskChunks, reads))"

text \<open>\<open>weekStart\<close> is the instant of \<open>weekStartDate\<close>; the result keeps it as it
  is (\<open>formatDate\<close> renders its date). \<open>None\<close>: the run does not return.\<close>

definition generateSchedule :: "SchedulingConfig \<Rightarrow> TimeZone \<Rightarrow> clock \<Rightarrow> string
    \<Rightarrow> TodoItem list \<Rightarrow> TimeBlock list \<Rightarrow> int \<Rightarrow> GeneratedSchedule option" where
  "generateSchedule cfg zone clk user tasks timeBlocks weekStart =
     (let incompleteTasks = filter (\<lambda>task. \<not> t_completed task) tasks
      in if length incompleteTasks = 0
         then Some \<lparr>userId = user, weekStartDate = weekStart, sessions = [],
                     generatedAt = clk 0, version = 1\<rparr>
         else
           (let availableSlotsByDay = availableSlots cfg timeBlocks
            in case allocationQueue cfg clk incompleteTasks of
                 None \<Rightarrow> None
               | Some (taskChunks, reads) \<Rightarrow>
                   (let (sess, usedSlots, reads') =
                          allocate zone availableSlotsByDay weekStart clk taskChunks
                            ([], {}, reads)
                    in Some \<lparr>userId = user, weekStartDate = weekStart, sessions = sess,
                              generatedAt = clk reads', version = 1\<rparr>)))"

subsection \<open>The specification's wording (sections 4.2 and 4.3)\<close>

text \<open>The urgency tiers as the table of the specification, read top down; the first
  tier whose condition holds gives the multiplier, and 1 is the value when none does.\<close>

definition tierTable :: "((real \<Rightarrow> int \<Rightarrow> bool) \<times> real) list" where
  "tierTable =
     [(\<lambda>effort days. days \<le> 0, 100),
      (\<lambda>effort days. effort < 3 \<and> days \<le> 1, 10),
      (\<lambda>effort days. effort < 6 \<and> days \<le> 2, 8),
      (\<lambda>effort days. effort < 12 \<and> days \<le> 3, 6),
      (\<lambda>effort days. effort < 18 \<and> days \<le> 4, 4),
      (\<lambda>effort days. days \<le> 5, 2)]"

fun firstMatch :: "((real \<Rightarrow> int \<Rightarrow> bool) \<times> real) list \<Rightarrow> real \<Rightarrow> int \<Rightarrow> real" where
  "firstMatch [] effort days = 1"
| "firstMatch ((cond, m) # tiers) effort days =
     (if cond effort days then m else firstMatch tiers effort days)"

text \<open>The two overrides, checked after the table.\<close>

definition spec_multiplier :: "real \<Rightarrow> int \<Rightarrow> real" where
  "spec_multiplier effort days =
     (let tier = firstMatch tierTable effort days
      in if days \<le> 0 then 100
         else if effort > real_of_int days * 8 then 50
         else tier)"

text \<open>The end of the busy period before the i-th one, or the start of the day.\<close>

definition previousEnd :: "int \<Rightarrow> (int \<times> int) list \<Rightarrow> nat \<Rightarrow> int" where
  "previousEnd dayStart busy i = (if i = 0 then dayStart else snd (busy ! (i - 1)))"

text \<open>The slot before the i-th busy period: the gap shrunk by the buffer on both
  sides, kept when it is at least the minimum session length.\<close>

definition spec_gapSlot :: "SchedulingConfig \<Rightarrow> nat \<Rightarrow> int \<Rightarrow> (int \<times> int) list \<Rightarrow> nat
    \<Rightarrow> AvailableTimeSlot list" where
  "spec_gapSlot cfg dy dayStart busy i =
     (let gap = fst (busy ! i) - previousEnd dayStart busy i
      in if gap - 2 * bufferTime cfg \<ge> minSessionLength cfg
         then [\<lparr>start = previousEnd dayStart busy i + bufferTime cfg,
                end' = fst (busy ! i) - bufferTime cfg,
                duration = gap - 2 * bufferTime cfg,
                day = dy\<rparr>]
         else [])"

subsection \<open>Comparing two runs\<close>

text \<open>Two sessions agree on every field but the generated identifier.\<close>

definition agreeExceptId :: "ScheduledStudySession \<Rightarrow> ScheduledStudySession \<Rightarrow> bool" where
  "agreeExceptId s1 s2 =
     (startTime s1 = startTime s2 \<and> endTime s1 = endTime s2 \<and> dayOfWeek s1 = dayOfWeek s2
      \<and> s_title s1 = s_title s2 \<and> s_notes s1 = s_notes s2
      \<and> calculatedPriority s1 = calculatedPriority s2
      \<and> s_taskId s1 = s_taskId s2 \<and> s_chunkIndex s1 = s_chunkIndex s2
      \<and> s_activityId s1 = s_activityId s2)"

text \<open>Two schedules agree on everything but the identifiers of their sessions and the
  generation timestamp.\<close>

definition sameSchedule :: "GeneratedSchedule \<Rightarrow> GeneratedSchedule \<Rightarrow> bool" where
  "sameSchedule g1 g2 =
     (userId g1 = userId g2 \<and> weekStartDate g1 = weekStartDate g2 \<and> version g1 = version g2
      \<and> list_all2 agreeExceptId (sessions g1) (sessions g2))"

section \<open>Rounding\<close>

text \<open>The exponent found by \<open>exponent\<close> is the binary exponent, and rounding stays
  within the binade: it returns a power of two as it is, keeps the sign, and is 0 only
  at 0.\<close>

lemma expUp_bounds:
  "1 \<le> x \<Longrightarrow> 0 \<le> expUp x \<and> 2 powi expUp x \<le> x \<and> x < 2 powi (expUp x + 1)"
proof (induction x rule: expUp.induct)
  case (1 x)
  show ?case
  proof (cases "2 \<le> x")
    case True
    then have "1 \<le> x / 2" by simp
    from "1.IH" [OF True this] have k: "0 \<le> expUp (x / 2)"
      and lo: "2 powi expUp (x / 2) \<le> x / 2" and hi: "x / 2 < 2 powi (expUp (x / 2) + 1)"
      by simp_all
    have e: "expUp x = expUp (x / 2) + 1"
      using True by (simp add: expUp.simps [of x])
    have "2 powi (expUp (x / 2) + 1) = 2 powi expUp (x / 2) * (2::real)"
      by (rule power_int_add_1) simp
    moreover have "2 powi (expUp (x / 2) + 1 + 1) = 2 powi (expUp (x / 2) + 1) * (2::real)"
      by (rule power_int_add_1) simp
    ultimately show ?thesis
      using k lo hi unfolding e by simp
  next
    case False
    with "1.prems" show ?thesis
      by (simp add: expUp.simps [of x])
  qed
qed

lemma expDown_bounds:
  "0 < x \<Longrightarrow> x < 1 \<Longrightarrow>
     expDown x \<le> - 1 \<and> 2 powi expDown x \<le> x \<and> x < 2 powi (expDown x + 1)"
proof (induction x rule: expDown.induct)
  case (1 x)
  from "1.prems" have rng: "0 < x \<and> x < 1" by simp
  have e: "expDown x = expDown (x * 2) - 1"
    using rng by (simp add: expDown.simps [of x])
  show ?case
  proof (cases "x * 2 < 1")
    case True
    from "1.prems" have "0 < x * 2" by simp
    from "1.IH" [OF rng this True] have k: "expDown (x * 2) \<le> - 1"
      and lo: "2 powi expDown (x * 2) \<le> x * 2" and hi: "x * 2 < 2 powi (expDown (x * 2) + 1)"
      by simp_all
    have "2 powi (expDown (x * 2) - 1 + 1) = 2 powi (expDown (x * 2) - 1) * (2::real)"
      by (rule power_int_add_1) simp
    moreover have "2 powi (expDown (x * 2) + 1) = 2 powi expDown (x * 2) * (2::real)"
      by (rule power_int_add_1) simp
    ultimately show ?thesis
      using k lo hi unfolding e by simp
  next
    case False
    then have "expDown (x * 2) = 0"
      by (simp add: expDown.simps [of "x * 2"])
    with False "1.prems" show ?thesis
      unfolding e by (simp add: power_int_minus)
  qed
qed

lemma exponent_bounds:
  assumes "0 < x"
  shows "2 powi exponent x \<le> x" and "x < 2 powi (exponent x + 1)"
  using assms expUp_bounds [of x] expDown_bounds [of x]
  by (auto simp: exponent_def)



lemma roundEven_bounds: "\<lfloor>y\<rfloor> \<le> roundEven y \<and> roundEven y \<le> \<lceil>y\<rceil>"
proof -
  have "\<lfloor>y\<rfloor> = \<lceil>y\<rceil> \<or> \<lfloor>y\<rfloor> + 1 = \<lceil>y\<rceil>"
    by linarith
  moreover have "y - real_of_int \<lfloor>y\<rfloor> = 0" if "\<lfloor>y\<rfloor> = \<lceil>y\<rceil>"
    using that by linarith
  ultimately show ?thesis
    by (auto simp: roundEven_def Let_def)
qed

lemma toDouble_binade:
  assumes x: "0 < x"
  shows "2 powi exponent x \<le> toDouble x" and "toDouble x \<le> 2 powi (exponent x + 1)"
proof -
  let ?e = "exponent x"
  let ?u = "(2::real) powi (?e - 52)"
  have u: "0 < ?u" by simp
  have a: "(2::real) powi ?e = 2 ^ 52 * ?u"
    by (simp add: power_int_diff)
  have b: "(2::real) powi (?e + 1) = 2 ^ 53 * ?u"
    by (simp add: power_int_diff power_int_add_1)
  from exponent_bounds [OF x] have "2 ^ 52 * ?u \<le> x" and "x < 2 ^ 53 * ?u"
    unfolding a b by simp_all
  with u have lo: "(2::real) ^ 52 \<le> x / ?u" and hi: "x / ?u \<le> 2 ^ 53"
    by (simp_all add: pos_le_divide_eq pos_divide_le_eq)
  from lo have "(2::int) ^ 52 \<le> \<lfloor>x / ?u\<rfloor>"
    by (simp add: le_floor_iff)
  with roundEven_bounds [of "x / ?u"] have r1: "(2::int) ^ 52 \<le> roundEven (x / ?u)"
    by linarith
  from hi have "\<lceil>x / ?u\<rceil> \<le> (2::int) ^ 53"
    by (simp add: ceiling_le_iff)
  with roundEven_bounds [of "x / ?u"] have r2: "roundEven (x / ?u) \<le> (2::int) ^ 53"
    by linarith
  have t: "toDouble x = real_of_int (roundEven (x / ?u)) * ?u"
    using x by (simp add: toDouble_def Let_def)
  from r1 have "(2::real) ^ 52 \<le> real_of_int (roundEven (x / ?u))"
    by (metis of_int_le_iff of_int_numeral of_int_power)
  with u show "2 powi exponent x \<le> toDouble x"
    unfolding a t by (simp add: mult_right_mono)
  from r2 have "real_of_int (roundEven (x / ?u)) \<le> (2::real) ^ 53"
    by (metis of_int_le_iff of_int_numeral of_int_power)
  with u show "toDouble x \<le> 2 powi (exponent x + 1)"
    unfolding b t by (simp add: mult_right_mono)
qed

lemma toDouble_pos: "0 < x \<Longrightarrow> 0 < toDouble x"
proof -
  assume x: "0 < x"
  have "(0::real) < 2 powi exponent x" by simp
  with toDouble_binade(1) [OF x] show ?thesis by linarith
qed

lemma toDouble_minus: "toDouble (- x) = - toDouble x"
  by (simp add: toDouble_def Let_def sgn_minus)

lemma toDouble_eq_0: "(toDouble x = 0) = (x = 0)"
proof (cases "0 < x")
  case True
  with toDouble_pos [of x] show ?thesis by simp
next
  case False
  show ?thesis
  proof (cases "x = 0")
    case True
    then show ?thesis by (simp add: toDouble_def)
  next
    case ne: False
    with False have "0 < - x" by simp
    from toDouble_pos [OF this] ne show ?thesis
      by (simp add: toDouble_minus)
  qed
qed




section \<open>Slot keys\<close>

text \<open>The key \<open>day-start-end\<close> of a slot is read back in one way only: two slots
  with the same key have the same day, start and end.\<close>

lemma digitChar_code: "d < 10 \<Longrightarrow> of_char (digitChar d) = 48 + d"
  by (simp add: digitChar_def)

lemma digitChar_inj: "d < 10 \<Longrightarrow> d' < 10 \<Longrightarrow> digitChar d = digitChar d' \<Longrightarrow> d = d'"
proof -
  assume d: "d < 10" "d' < 10" and eq: "digitChar d = digitChar d'"
  from eq have "(of_char (digitChar d) :: nat) = of_char (digitChar d')" by simp
  with d show ?thesis by (simp add: digitChar_code)
qed

lemma digitChar_not_dash: "d < 10 \<Longrightarrow> digitChar d \<noteq> CHR ''-''"
proof
  assume d: "d < 10" and eq: "digitChar d = CHR ''-''"
  from eq have "(of_char (digitChar d) :: nat) = of_char CHR ''-''" by simp
  with d show False by (simp add: digitChar_code)
qed

lemma showNat_small: "n < 10 \<Longrightarrow> showNat n = [digitChar n]"
  by (simp add: showNat.simps [of n])

lemma showNat_large: "\<not> n < 10 \<Longrightarrow> showNat n = showNat (n div 10) @ [digitChar (n mod 10)]"
  by (simp add: showNat.simps [of n])

lemma showNat_not_Nil: "showNat n \<noteq> []"
  by (cases "n < 10") (simp_all add: showNat_small showNat_large)

lemma showNat_no_dash: "CHR ''-'' \<notin> set (showNat n)"
proof (induction n rule: showNat.induct)
  case (1 n)
  show ?case
  proof (cases "n < 10")
    case True
    with digitChar_not_dash [of n] show ?thesis
      by (auto simp: showNat_small)
  next
    case False
    have "n mod 10 < 10" by simp
    from digitChar_not_dash [OF this] "1.IH" [OF False] show ?thesis
      by (auto simp: showNat_large [OF False])
  qed
qed

lemma showNat_inj: "showNat n = showNat m \<Longrightarrow> n = m"
proof (induction n arbitrary: m rule: showNat.induct)
  case (1 n)
  show ?case
  proof (cases "n < 10")
    case True
    note n = this
    show ?thesis
    proof (cases "m < 10")
      case True
      with n "1.prems" digitChar_inj [of n m] show ?thesis
        by (simp add: showNat_small)
    next
      case False
      with n "1.prems" showNat_not_Nil [of "m div 10"] show ?thesis
        by (simp add: showNat_small showNat_large)
    qed
  next
    case False
    note n = this
    show ?thesis
    proof (cases "m < 10")
      case True
      with n "1.prems" showNat_not_Nil [of "n div 10"] show ?thesis
        by (simp add: showNat_small showNat_large)
    next
      case False
      with n "1.prems" have "showNat (n div 10) = showNat (m div 10)"
        and "digitChar (n mod 10) = digitChar (m mod 10)"
        by (simp_all add: showNat_large)
      then have "n div 10 = m div 10" and "n mod 10 = m mod 10"
        using "1.IH" [OF n, of "m div 10"] digitChar_inj [of "n mod 10" "m mod 10"]
        by simp_all
      then show ?thesis
        by (metis div_mult_mod_eq)
    qed
  qed
qed

lemma showInt_inj: "showInt i = showInt j \<Longrightarrow> i = j"
proof -
  assume eq: "showInt i = showInt j"
  have hd_digit: "hd (showNat n) \<noteq> CHR ''-''" for n
    using showNat_no_dash [of n] showNat_not_Nil [of n] by (cases "showNat n") auto
  show ?thesis
  proof (cases "i < 0")
    case True
    note i = this
    show ?thesis
    proof (cases "j < 0")
      case True
      with i eq have "nat (- i) = nat (- j)"
        by (simp add: showInt_def showNat_inj)
      with i True show ?thesis by simp
    next
      case False
      with i eq have "CHR ''-'' # showNat (nat (- i)) = showNat (nat j)"
        by (simp add: showInt_def)
      then have "hd (showNat (nat j)) = CHR ''-''"
        by (metis list.sel(1))
      with hd_digit show ?thesis by simp
    qed
  next
    case False
    note i = this
    show ?thesis
    proof (cases "j < 0")
      case True
      with i eq have "showNat (nat i) = CHR ''-'' # showNat (nat (- j))"
        by (simp add: showInt_def)
      then have "hd (showNat (nat i)) = CHR ''-''"
        by (metis list.sel(1))
      with hd_digit show ?thesis by simp
    next
      case False
      with i eq have "nat i = nat j"
        by (simp add: showInt_def showNat_inj)
      with i False show ?thesis by simp
    qed
  qed
qed

text \<open>A string without a dash, followed by a dash, is read back in one way.\<close>

lemma takeWhile_dash:
  "CHR ''-'' \<notin> set xs \<Longrightarrow> takeWhile (\<lambda>c. c \<noteq> CHR ''-'') (xs @ CHR ''-'' # r) = xs"
  by (induction xs) auto

lemma dash_split:
  assumes "CHR ''-'' \<notin> set xs" and "CHR ''-'' \<notin> set ys"
    and "xs @ CHR ''-'' # r = ys @ CHR ''-'' # r'"
  shows "xs = ys \<and> r = r'"
proof -
  from takeWhile_dash [OF assms(1), of r] takeWhile_dash [OF assms(2), of r'] assms(3)
  have "xs = ys" by simp
  with assms(3) show ?thesis by simp
qed

lemma showInt_dash_split:
  assumes "showInt i @ CHR ''-'' # r = showInt j @ CHR ''-'' # r'"
  shows "i = j \<and> r = r'"
proof -
  have hd_digit: "hd (showNat n) \<noteq> CHR ''-''" for n
    using showNat_no_dash [of n] showNat_not_Nil [of n] by (cases "showNat n") auto
  have first: "hd (showInt k @ CHR ''-'' # t) = CHR ''-'' \<longleftrightarrow> k < 0" for k t
    using hd_digit [of "nat k"] showNat_not_Nil [of "nat k"]
    by (simp add: showInt_def hd_append)
  from assms have "hd (showInt i @ CHR ''-'' # r) = hd (showInt j @ CHR ''-'' # r')"
    by simp
  then have sign: "i < 0 \<longleftrightarrow> j < 0"
    using first [of i r] first [of j r'] by simp
  show ?thesis
  proof (cases "i < 0")
    case True
    with sign have j: "j < 0" by simp
    from assms True j have "showNat (nat (- i)) @ CHR ''-'' # r = showNat (nat (- j)) @ CHR ''-'' # r'"
      by (simp add: showInt_def)
    from dash_split [OF showNat_no_dash showNat_no_dash this]
    have "nat (- i) = nat (- j)" and "r = r'"
      by (simp_all add: showNat_inj)
    with True j show ?thesis by simp
  next
    case False
    with sign have j: "\<not> j < 0" by simp
    from assms False j have "showNat (nat i) @ CHR ''-'' # r = showNat (nat j) @ CHR ''-'' # r'"
      by (simp add: showInt_def)
    from dash_split [OF showNat_no_dash showNat_no_dash this]
    have "nat i = nat j" and "r = r'"
      by (simp_all add: showNat_inj)
    with False j show ?thesis by simp
  qed
qed

lemma slotKey_inj:
  assumes "slotKey a = slotKey b"
  shows "day a = day b \<and> start a = start b \<and> end' a = end' b"
proof -
  from assms have "showNat (day a) @ CHR ''-'' # (showInt (start a) @ CHR ''-'' # showInt (end' a)) =
      showNat (day b) @ CHR ''-'' # (showInt (start b) @ CHR ''-'' # showInt (end' b))"
    by (simp add: slotKey_def)
  from dash_split [OF showNat_no_dash showNat_no_dash this]
  have d: "day a = day b"
    and rest: "showInt (start a) @ CHR ''-'' # showInt (end' a) =
      showInt (start b) @ CHR ''-'' # showInt (end' b)"
    by (simp_all add: showNat_inj)
  from showInt_dash_split [OF rest] have "start a = start b" and "showInt (end' a) = showInt (end' b)"
    by simp_all
  with d show ?thesis
    by (simp add: showInt_inj)
qed

section \<open>Priority scoring\<close>

text \<open>
  C7. A task whose due date is the undated marker gets the fixed result: priority 0.1,
  multiplier 1, base priority 0.1, days until due infinite, average hours per day 0,
  whatever its estimated effort (and whatever the clock shows).
\<close>

theorem undated_priority_fixed:
  "calculatePriority now (task\<lparr>t_dueDate := TBD\<rparr>) =
     \<lparr>p_taskId = t_id task, p_priority = 0.1, urgencyMultiplier = 1, basePriority = 0.1,
      daysUntilDue = Infinity, averageHoursPerDay = 0\<rparr>"
  by (simp add: calculatePriority_def)

lemma urgency_refines_table:
  "impossibleDeadline effort days (urgencyTier effort days) = spec_multiplier effort days"
  by (simp add: impossibleDeadline_def urgencyTier_def spec_multiplier_def tierTable_def)




section \<open>Available slots\<close>

text \<open>The loop appends to the slots it is given and does not read them.\<close>


lemma sweep_acc:
  "sweep cfg dy bs cur acc = (acc @ fst (sweep cfg dy bs cur []), snd (sweep cfg dy bs cur []))"
proof (induction bs arbitrary: cur acc)
  case Nil
  show ?case by simp
next
  case (Cons b bs)
  obtain s e where b: "b = (s, e)" by (cases b)
  let ?slot = "\<lparr>start = cur + bufferTime cfg, end' = s - bufferTime cfg,
                 duration = s - cur - bufferTime cfg * 2, day = dy\<rparr>"
  show ?case
    unfolding b
    using Cons.IH [of e acc] Cons.IH [of e "acc @ [?slot]"] Cons.IH [of e "[?slot]"]
    by (simp add: Let_def)
qed

lemma previousEnd_Cons: "previousEnd c (b # bs) (Suc i) = previousEnd (snd b) bs i"
  by (cases i) (simp_all add: previousEnd_def)

lemma spec_gapSlot_Cons:
  "spec_gapSlot cfg dy c (b # bs) (Suc i) = spec_gapSlot cfg dy (snd b) bs i"
  by (simp add: spec_gapSlot_def previousEnd_Cons Let_def)

lemma map_upt_shift: "map f [0..<Suc n] = f 0 # map (\<lambda>i. f (Suc i)) [0..<n]"
  by (simp add: upt_conv_Cons map_Suc_upt [symmetric] del: upt_Suc)

lemma sweep_spec:
  "sweep cfg dy bs c [] =
     (concat (map (spec_gapSlot cfg dy c bs) [0..<length bs]), previousEnd c bs (length bs))"
proof (induction bs arbitrary: c)
  case Nil
  show ?case by (simp add: previousEnd_def)
next
  case (Cons b bs)
  obtain s e where b: "b = (s, e)" by (cases b)
  have first: "spec_gapSlot cfg dy c ((s, e) # bs) 0 =
      (if s - c - bufferTime cfg * 2 \<ge> minSessionLength cfg
       then [\<lparr>start = c + bufferTime cfg, end' = s - bufferTime cfg,
              duration = s - c - bufferTime cfg * 2, day = dy\<rparr>] else [])"
    by (simp add: spec_gapSlot_def previousEnd_def Let_def mult.commute)
  have step: "sweep cfg dy ((s, e) # bs) c [] =
      (spec_gapSlot cfg dy c ((s, e) # bs) 0 @ fst (sweep cfg dy bs e []),
       snd (sweep cfg dy bs e []))"
    unfolding first
    by (simp add: Let_def sweep_acc [of cfg dy bs e "[_]"])
  show ?case
    unfolding b length_Cons map_upt_shift step Cons.IH
    by (simp add: spec_gapSlot_Cons previousEnd_Cons)
qed

text \<open>
  C4. The slots of a day are, for each busy period of the sorted sequence in order, the
  slot before it, present if and only if the gap from the previous period's end (or
  minute 0) to its start, less twice the buffer, is at least the minimum session
  length, starting one buffer after the previous end and ending one buffer before the
  period's start; and then one slot for the gap that remains up to minute 1440,
  present if and only if that gap less one buffer is at least the minimum session
  length. The last slot starts one buffer after the last period's end (or after minute
  0), its duration is the whole gap less one buffer, so that start + duration = 1440,
  and its end field is 1440 less the buffer.
\<close>

theorem slots_follow_the_gaps:
  fixes cfg :: SchedulingConfig and busyTimeList :: BusyTimeList and dy :: nat
  defines "busy \<equiv> sort_key fst (nodeData (head busyTimeList))"
  defines "lastEnd \<equiv> (if busy = [] then 0 else snd (last busy))"
  shows "calculateAvailableTimeSlots cfg busyTimeList dy =
           concat (map (spec_gapSlot cfg dy 0 busy) [0..<length busy]) @
           (if minSessionLength cfg \<le> 1440 - lastEnd - bufferTime cfg
            then [\<lparr>start = lastEnd + bufferTime cfg,
                   end' = 1440 - bufferTime cfg,
                   duration = 1440 - lastEnd - bufferTime cfg,
                   day = dy\<rparr>]
            else [])
       \<and> (\<forall>i < length busy.
            (spec_gapSlot cfg dy 0 busy i \<noteq> []) =
              (fst (busy ! i) - previousEnd 0 busy i - 2 * bufferTime cfg \<ge> minSessionLength cfg)
          \<and> (\<forall>slot \<in> set (spec_gapSlot cfg dy 0 busy i).
                start slot = previousEnd 0 busy i + bufferTime cfg
              \<and> end' slot = fst (busy ! i) - bufferTime cfg
              \<and> duration slot = end' slot - start slot
              \<and> day slot = dy))
       \<and> (\<forall>i < length busy.
            previousEnd 0 busy i = (if i = 0 then 0 else snd (busy ! (i - 1))))"
proof -
  have l: "previousEnd 0 busy (length busy) = lastEnd"
    by (simp add: previousEnd_def lastEnd_def last_conv_nth)
  have a: "calculateAvailableTimeSlots cfg busyTimeList dy =
           concat (map (spec_gapSlot cfg dy 0 busy) [0..<length busy]) @
           (if minSessionLength cfg \<le> 1440 - lastEnd - bufferTime cfg
            then [\<lparr>start = lastEnd + bufferTime cfg,
                   end' = 1440 - bufferTime cfg,
                   duration = 1440 - lastEnd - bufferTime cfg,
                   day = dy\<rparr>]
            else [])"
    unfolding calculateAvailableTimeSlots_def busy_def [symmetric]
    by (simp add: Let_def sweep_spec l trailingSlot_def endOfDay_def)
  have b: "\<forall>i < length busy.
            (spec_gapSlot cfg dy 0 busy i \<noteq> []) =
              (fst (busy ! i) - previousEnd 0 busy i - 2 * bufferTime cfg \<ge> minSessionLength cfg)
          \<and> (\<forall>slot \<in> set (spec_gapSlot cfg dy 0 busy i).
                start slot = previousEnd 0 busy i + bufferTime cfg
              \<and> end' slot = fst (busy ! i) - bufferTime cfg
              \<and> duration slot = end' slot - start slot
              \<and> day slot = dy)"
    by (simp add: spec_gapSlot_def Let_def)
  have c: "\<forall>i < length busy.
            previousEnd 0 busy i = (if i = 0 then 0 else snd (busy ! (i - 1)))"
    by (simp add: previousEnd_def)
  from a b c show ?thesis by blast
qed

theorem slots_follow_the_gaps_witness:
  "calculateAvailableTimeSlots DEFAULT_SCHEDULING_CONFIG
      \<lparr>head = toNodes [(540, 600), (605, 720)], bl_size = 2\<rparr> 0 =
     [\<lparr>start = 5, end' = 535, duration = 530, day = 0\<rparr>,
      \<lparr>start = 725, end' = 1435, duration = 715, day = 0\<rparr>]"
  using slots_follow_the_gaps [of DEFAULT_SCHEDULING_CONFIG
      "\<lparr>head = toNodes [(540, 600), (605, 720)], bl_size = 2\<rparr>" 0]
  by (simp add: DEFAULT_SCHEDULING_CONFIG_def spec_gapSlot_def previousEnd_def upt_conv_Cons)

lemma gap_slots_extent:
  "slot \<in> set (fst (sweep cfg dy bs c [])) \<Longrightarrow> duration slot = end' slot - start slot"
  by (auto simp: sweep_spec spec_gapSlot_def Let_def split: if_splits)

lemma setHoursOffset_endOfDay: "setHoursOffset 1440 = 1440"
  by (simp add: setHoursOffset_def js_rem_def)

lemma setHours_offset:
  "setHours zone date (m div 60) (js_rem m 60) =
     utcOf zone (localMidnight (localOf zone date) + setHoursOffset m)"
  by (simp add: setHours_def setHoursOffset_def add.assoc)

text \<open>
  C9. Every slot pushed inside the loop has duration = end - start. The slot pushed
  after the loop (also on a day with no busy period) has duration = end - start +
  bufferTime, which exceeds its extent when the buffer is positive; a session for a
  chunk of exactly that duration ends one buffer after the slot's end: at the local
  time end + bufferTime of the session's day, which is minute 1440.
\<close>

theorem trailing_slot_duration_exceeds_extent:
  fixes cfg :: SchedulingConfig and busyTimeList :: BusyTimeList and dy :: nat
  defines "busy \<equiv> sort_key fst (nodeData (head busyTimeList))"
  defines "gaps \<equiv> fst (sweep cfg dy busy 0 [])"
  defines "trailing \<equiv> trailingSlot cfg dy (snd (sweep cfg dy busy 0 []))"
  shows "calculateAvailableTimeSlots cfg busyTimeList dy = gaps @ trailing
       \<and> (\<forall>slot \<in> set gaps. duration slot = end' slot - start slot)
       \<and> (\<forall>slot \<in> set trailing.
             duration slot = end' slot - start slot + bufferTime cfg
           \<and> (bufferTime cfg > 0 \<longrightarrow> duration slot > end' slot - start slot)
           \<and> end' slot + bufferTime cfg = 1440
           \<and> (\<forall>zone chunk weekStart nowMs.
                 \<lceil>jsMul (estimatedHours chunk) 60\<rceil> = duration slot \<longrightarrow>
                 endTime (createStudySession zone chunk slot weekStart nowMs) =
                   utcOf zone
                     (localMidnight (localOf zone (addDays zone weekStart (int (day slot)))) +
                      end' slot + bufferTime cfg))
           \<and> (\<forall>chunk weekStart nowMs.
                 \<lceil>jsMul (estimatedHours chunk) 60\<rceil> = duration slot \<longrightarrow>
                 endTime (createStudySession utcZone chunk slot weekStart nowMs) =
                   localMidnight weekStart + int (day slot) * 1440 + end' slot + bufferTime cfg))"
proof -
  have a: "calculateAvailableTimeSlots cfg busyTimeList dy = gaps @ trailing"
    unfolding calculateAvailableTimeSlots_def busy_def gaps_def trailing_def
    by (simp add: Let_def split_beta)
  have b: "\<forall>slot \<in> set gaps. duration slot = end' slot - start slot"
    unfolding gaps_def by (blast intro: gap_slots_extent)
  have utc: "localMidnight (w + d * 1440) = localMidnight w + d * 1440" for w d :: int
    by (simp add: localMidnight_def algebra_simps)
  have c: "\<forall>slot \<in> set trailing.
             duration slot = end' slot - start slot + bufferTime cfg
           \<and> (bufferTime cfg > 0 \<longrightarrow> duration slot > end' slot - start slot)
           \<and> end' slot + bufferTime cfg = 1440
           \<and> (\<forall>zone chunk weekStart nowMs.
                 \<lceil>jsMul (estimatedHours chunk) 60\<rceil> = duration slot \<longrightarrow>
                 endTime (createStudySession zone chunk slot weekStart nowMs) =
                   utcOf zone
                     (localMidnight (localOf zone (addDays zone weekStart (int (day slot)))) +
                      end' slot + bufferTime cfg))
           \<and> (\<forall>chunk weekStart nowMs.
                 \<lceil>jsMul (estimatedHours chunk) 60\<rceil> = duration slot \<longrightarrow>
                 endTime (createStudySession utcZone chunk slot weekStart nowMs) =
                   localMidnight weekStart + int (day slot) * 1440 + end' slot + bufferTime cfg)"
    unfolding trailing_def trailingSlot_def
    by (simp add: Let_def createStudySession_def endOfDay_def setHours_offset
        setHoursOffset_endOfDay utcZone_def addDays_def utc)
  from a b c show ?thesis by blast
qed

theorem trailing_slot_duration_exceeds_extent_witness:
  "calculateAvailableTimeSlots DEFAULT_SCHEDULING_CONFIG
      \<lparr>head = toNodes [(540, 600)], bl_size = 1\<rparr> 2 =
     [\<lparr>start = 5, end' = 535, duration = 530, day = 2\<rparr>] @
     [\<lparr>start = 605, end' = 1435, duration = 835, day = 2\<rparr>]
   \<and> \<lceil>jsMul (jsDiv 835 60) 60\<rceil> = 835
   \<and> endTime (createStudySession utcZone
        \<lparr>taskId = ''t'', title = ''essay'', c_notes = None, estimatedHours = jsDiv 835 60,
         priority = 0, dueDate = TBD, activityId = None, chunkIndex = 0, totalChunks = 1\<rparr>
        \<lparr>start = 605, end' = 1435, duration = 835, day = 2\<rparr> 0 0) = 2 * 1440 + 1435 + 5"
proof -
  have m: "\<lceil>jsMul (jsDiv 835 60) 60\<rceil> = 835"
    by code_simp
  show ?thesis
    using trailing_slot_duration_exceeds_extent [of DEFAULT_SCHEDULING_CONFIG
      "\<lparr>head = toNodes [(540, 600)], bl_size = 1\<rparr>" 2] m
    by (simp add: DEFAULT_SCHEDULING_CONFIG_def trailingSlot_def endOfDay_def Let_def
        createStudySession_def setHours_offset setHoursOffset_endOfDay utcZone_def addDays_def
        localMidnight_def)
qed

section \<open>Chunking\<close>

















section \<open>The run returns\<close>

text \<open>Only a maximum session length of 0 can keep the chunk loop from ending.\<close>

lemma createTaskChunks_returns:
  "maxSessionLength cfg \<noteq> 0 \<Longrightarrow> \<exists>chunks. createTaskChunks cfg task = Some chunks"
  by (simp add: createTaskChunks_def Let_def jsDiv_def toDouble_eq_0)

lemma scoreTask_returns:
  "maxSessionLength cfg \<noteq> 0 \<Longrightarrow> \<exists>chunks. scoreTask cfg now task = Some chunks"
  using createTaskChunks_returns [of cfg task]
  by (auto simp: scoreTask_def Let_def)

lemma scoreAndChunk_returns:
  "maxSessionLength cfg \<noteq> 0 \<Longrightarrow> \<exists>q r. scoreAndChunk cfg clk tasks reads acc = Some (q, r)"
proof (induction tasks arbitrary: reads acc)
  case Nil
  show ?case by simp
next
  case (Cons task rest)
  from scoreTask_returns [OF Cons.prems] obtain chunks
    where "scoreTask cfg (clk reads) task = Some chunks" by blast
  with Cons.IH [OF Cons.prems, of "reads + 1" "acc @ chunks"] show ?case
    by simp
qed

lemma allocationQueue_returns:
  "maxSessionLength cfg \<noteq> 0 \<Longrightarrow> \<exists>queue reads. allocationQueue cfg clk tasks = Some (queue, reads)"
  using scoreAndChunk_returns [of cfg clk tasks 0 "[]"]
  by (auto simp: allocationQueue_def)

lemma generateSchedule_returns:
  assumes "maxSessionLength cfg \<noteq> 0"
  shows "generateSchedule cfg zone clk user tasks timeBlocks weekStart \<noteq> None"
proof -
  from allocationQueue_returns [OF assms] obtain queue reads where
    "allocationQueue cfg clk (filter (\<lambda>task. \<not> t_completed task) tasks) = Some (queue, reads)"
    by blast
  then show ?thesis
    by (simp add: generateSchedule_def Let_def split_beta)
qed

section \<open>The allocation queue\<close>

lemma msPerDay_pos: "0 < real_of_int msPerDay"
  by (simp add: msPerDay_def)

lemma overdue_days: "dueMs \<le> now \<Longrightarrow> \<lceil>real_of_int (dueMs - now) / real_of_int msPerDay\<rceil> \<le> 0"
proof -
  assume "dueMs \<le> now"
  then have "real_of_int (dueMs - now) / real_of_int msPerDay \<le> 0"
    using msPerDay_pos by (simp add: divide_le_0_iff)
  then show ?thesis
    by (simp add: ceiling_le_zero)
qed

lemma future_days: "now < dueMs \<Longrightarrow> 1 \<le> \<lceil>real_of_int (dueMs - now) / real_of_int msPerDay\<rceil>"
proof -
  assume "now < dueMs"
  then have "0 < real_of_int (dueMs - now) / real_of_int msPerDay"
    using msPerDay_pos by simp
  then show ?thesis
    by linarith
qed

lemma overdue_priority:
  assumes "t_dueDate task = Due dueMs" and "dueMs \<le> now"
  shows "urgencyMultiplier (calculatePriority now task) = 100"
    and "p_priority (calculatePriority now task) = 100 * effortHours task"
  using assms overdue_days [OF assms(2)]
  by (simp_all add: calculatePriority_def Let_def impossibleDeadline_def max_def)

lemma future_multiplier: "1 \<le> d \<Longrightarrow> 0 < spec_multiplier e d \<and> spec_multiplier e d \<le> 50"
  by (simp add: spec_multiplier_def tierTable_def)

lemma future_priority:
  assumes due: "t_dueDate task = Due dueMs" and fut: "now < dueMs"
    and le: "effortHours task \<le> e" and e: "0 < e"
  shows "p_priority (calculatePriority now task) \<le> 50 * e"
proof -
  let ?d = "\<lceil>real_of_int (dueMs - now) / real_of_int msPerDay\<rceil>"
  let ?u = "spec_multiplier (effortHours task) ?d"
  from future_days [OF fut] have d: "1 \<le> ?d" .
  then have d': "1 \<le> real_of_int ?d" by linarith
  from future_multiplier [OF d] have u: "0 < ?u" "?u \<le> 50" by simp_all
  from d have mx: "max ?d 1 = ?d" by simp
  have p: "p_priority (calculatePriority now task) = effortHours task / real_of_int ?d * ?u"
    unfolding calculatePriority_def due
    by (simp only: DueDate.case Let_def urgency_refines_table mx PriorityResult.select_convs)
  show ?thesis
  proof (cases "0 \<le> effortHours task")
    case True
    have "effortHours task / real_of_int ?d \<le> effortHours task"
      using True d' by (simp add: divide_le_eq mult_le_cancel_left1)
    moreover have "0 \<le> effortHours task / real_of_int ?d"
      using True d' by simp
    ultimately have "effortHours task / real_of_int ?d * ?u \<le> effortHours task * 50"
      using u True by (intro mult_mono) simp_all
    with le p show ?thesis by simp
  next
    case False
    then have "effortHours task / real_of_int ?d \<le> 0"
      using d' by (simp add: divide_le_0_iff)
    with u(1) have "effortHours task / real_of_int ?d * ?u \<le> 0"
      by (intro mult_nonpos_nonneg) simp_all
    with p e show ?thesis by simp
  qed
qed

lemma scoreTask_priority:
  "scoreTask cfg now task = Some chunks \<Longrightarrow> chunk \<in> set chunks \<Longrightarrow>
     priority chunk = p_priority (calculatePriority now task)"
  by (auto simp: scoreTask_def Let_def split: option.splits)

lemma scoreAndChunk_contains:
  "scoreAndChunk cfg clk tasks reads acc = Some (q, r) \<Longrightarrow>
     set acc \<subseteq> set q \<and> r = reads + length tasks \<and>
     (\<forall>k < length tasks. \<exists>chunks. scoreTask cfg (clk (reads + k)) (tasks ! k) = Some chunks
         \<and> set chunks \<subseteq> set q)"
proof (induction tasks arbitrary: reads acc)
  case Nil
  then show ?case by simp
next
  case (Cons task rest)
  from Cons.prems obtain chunks where c: "scoreTask cfg (clk reads) task = Some chunks"
    and r: "scoreAndChunk cfg clk rest (reads + 1) (acc @ chunks) = Some (q, r)"
    by (auto split: option.splits)
  from Cons.IH [OF r] have ih: "set (acc @ chunks) \<subseteq> set q" "r = reads + 1 + length rest"
    "\<forall>k < length rest. \<exists>cs. scoreTask cfg (clk (reads + 1 + k)) (rest ! k) = Some cs
         \<and> set cs \<subseteq> set q"
    by simp_all
  have "\<exists>cs. scoreTask cfg (clk (reads + k)) ((task # rest) ! k) = Some cs \<and> set cs \<subseteq> set q"
    if "k < length (task # rest)" for k
  proof (cases k)
    case 0
    with c ih(1) show ?thesis by simp
  next
    case (Suc k')
    with that ih(3) show ?thesis by simp
  qed
  with ih show ?case by simp
qed

text \<open>
  C6, as amended. Of two incomplete tasks, let one be overdue when it is scored (due
  date at or before the clock) with a positive effort, and the other have a due date
  after the clock when it is scored and an effort no larger, where the effort of a task
  is what the code uses: the estimated hours, or 1 when they are absent or 0. Then
  (the maximum session length not being 0) the overdue task's multiplier is 100, the
  allocation queue exists and holds the chunks of both, and every chunk of the overdue
  task stands before every chunk of the other one.
\<close>

theorem overdue_chunks_precede_future_chunks:
  fixes tasks :: "TodoItem list"
  defines "incompleteTasks \<equiv> filter (\<lambda>task. \<not> t_completed task) tasks"
  assumes cfg: "maxSessionLength cfg \<noteq> 0"
    and a: "a < length incompleteTasks" and b: "b < length incompleteTasks"
    and overdue: "t_dueDate (incompleteTasks ! a) = Due dueA" "dueA \<le> clk a"
    and effort: "0 < effortHours (incompleteTasks ! a)"
    and future: "t_dueDate (incompleteTasks ! b) = Due dueB" "clk b < dueB"
    and smaller: "effortHours (incompleteTasks ! b) \<le> effortHours (incompleteTasks ! a)"
  shows "urgencyMultiplier (calculatePriority (clk a) (incompleteTasks ! a)) = 100
       \<and> (\<exists>queue reads chunksA chunksB.
             allocationQueue cfg clk incompleteTasks = Some (queue, reads)
           \<and> scoreTask cfg (clk a) (incompleteTasks ! a) = Some chunksA
           \<and> scoreTask cfg (clk b) (incompleteTasks ! b) = Some chunksB
           \<and> set chunksA \<subseteq> set queue \<and> set chunksB \<subseteq> set queue
           \<and> (\<forall>i j. i < length queue \<and> j < length queue
                  \<and> queue ! i \<in> set chunksA \<and> queue ! j \<in> set chunksB \<longrightarrow> i < j))"
proof -
  let ?A = "incompleteTasks ! a" and ?B = "incompleteTasks ! b"
  let ?pA = "p_priority (calculatePriority (clk a) ?A)"
  let ?pB = "p_priority (calculatePriority (clk b) ?B)"
  from allocationQueue_returns [OF cfg] obtain queue reads where
    queue: "allocationQueue cfg clk incompleteTasks = Some (queue, reads)"
    by blast
  then obtain taskChunks where
    sc: "scoreAndChunk cfg clk incompleteTasks 0 [] = Some (taskChunks, reads)"
    and q: "queue = sort_key (\<lambda>chunk. - priority chunk) taskChunks"
    by (auto simp: allocationQueue_def split: option.splits)
  from scoreAndChunk_contains [OF sc] a b obtain chunksA chunksB where
    cA: "scoreTask cfg (clk a) ?A = Some chunksA" "set chunksA \<subseteq> set queue"
    and cB: "scoreTask cfg (clk b) ?B = Some chunksB" "set chunksB \<subseteq> set queue"
    unfolding q by (metis add_0 set_sort)
  have lt: "?pB < ?pA"
    using overdue_priority(2) [OF overdue] future_priority [OF future smaller effort] effort
    by simp
  have sorted: "sorted (map (\<lambda>chunk. - priority chunk) queue)"
    unfolding q by (rule sorted_sort_key)
  have order: "i < j" if ij: "i < length queue" "j < length queue"
    and inA: "queue ! i \<in> set chunksA" and inB: "queue ! j \<in> set chunksB" for i j
  proof (rule ccontr)
    assume "\<not> i < j"
    then have "j \<le> i" by simp
    with sorted ij have "- priority (queue ! j) \<le> - priority (queue ! i)"
      by (simp add: sorted_iff_nth_mono)
    moreover have "priority (queue ! i) = ?pA"
      using scoreTask_priority [OF cA(1) inA] .
    moreover have "priority (queue ! j) = ?pB"
      using scoreTask_priority [OF cB(1) inB] .
    ultimately show False using lt by simp
  qed
  from overdue_priority(1) [OF overdue] queue cA cB order show ?thesis
    by blast
qed

theorem overdue_chunks_precede_future_chunks_witness:
  "maxSessionLength DEFAULT_SCHEDULING_CONFIG \<noteq> 0
   \<and> allocationQueue DEFAULT_SCHEDULING_CONFIG (\<lambda>n. 1000)
      (filter (\<lambda>task. \<not> t_completed task)
        [\<lparr>t_id = ''f'', t_title = ''notes'', t_notes = None, t_dueDate = Due 864000000,
          t_estimatedHours = Some 1, t_completed = False, t_activityId = None\<rparr>,
         \<lparr>t_id = ''o'', t_title = ''essay'', t_notes = None, t_dueDate = Due 0,
          t_estimatedHours = Some 1, t_completed = False, t_activityId = None\<rparr>]) =
     Some ([\<lparr>taskId = ''o'', title = ''essay'', c_notes = None, estimatedHours = 1,
             priority = 100, dueDate = Due 0, activityId = None, chunkIndex = 0,
             totalChunks = 1\<rparr>,
            \<lparr>taskId = ''f'', title = ''notes'', c_notes = None, estimatedHours = 1,
             priority = 1 / 10, dueDate = Due 864000000, activityId = None, chunkIndex = 0,
             totalChunks = 1\<rparr>], 2)
   \<and> urgencyMultiplier (calculatePriority 1000
        \<lparr>t_id = ''o'', t_title = ''essay'', t_notes = None, t_dueDate = Due 0,
          t_estimatedHours = Some 1, t_completed = False, t_activityId = None\<rparr>) = 100"
proof -
  let ?F = "\<lparr>t_id = ''f'', t_title = ''notes'', t_notes = None, t_dueDate = Due 864000000,
          t_estimatedHours = Some 1, t_completed = False, t_activityId = None\<rparr>"
  let ?O = "\<lparr>t_id = ''o'', t_title = ''essay'', t_notes = None, t_dueDate = Due 0,
          t_estimatedHours = Some 1, t_completed = False, t_activityId = None\<rparr>"
  let ?q = "[\<lparr>taskId = ''o'', title = ''essay'', c_notes = None, estimatedHours = 1,
             priority = 100, dueDate = Due 0, activityId = None, chunkIndex = 0,
             totalChunks = 1\<rparr>,
            \<lparr>taskId = ''f'', title = ''notes'', c_notes = None, estimatedHours = 1,
             priority = 1 / 10, dueDate = Due 864000000, activityId = None, chunkIndex = 0,
             totalChunks = 1\<rparr>]"
  have cfg: "maxSessionLength DEFAULT_SCHEDULING_CONFIG \<noteq> 0"
    by (simp add: DEFAULT_SCHEDULING_CONFIG_def)
  have q: "allocationQueue DEFAULT_SCHEDULING_CONFIG (\<lambda>n. 1000)
      (filter (\<lambda>task. \<not> t_completed task) [?F, ?O]) = Some (?q, 2)"
    by code_simp
  have "urgencyMultiplier (calculatePriority ((\<lambda>n. 1000) (1::nat))
      (filter (\<lambda>task. \<not> t_completed task) [?F, ?O] ! 1)) = 100"
    using overdue_chunks_precede_future_chunks [where a = 1 and b = 0 and dueA = 0
        and dueB = 864000000 and clk = "\<lambda>n. 1000" and tasks = "[?F, ?O]", OF cfg]
    by (simp add: effortHours_def)
  with q cfg show ?thesis
    by simp
qed

text \<open>
  The claim as stated fails when the future-dated task's estimate is exactly 0, which
  the code scores as 1 hour: against an overdue task of 0.05 hours (priority 5) a task
  due in one day with an estimate of 0 gets priority 10 and its chunk comes first.
\<close>

theorem future_chunk_first_counterexample:
  "map_option (\<lambda>(queue, reads). map (\<lambda>chunk. (taskId chunk, priority chunk)) queue)
     (allocationQueue DEFAULT_SCHEDULING_CONFIG (\<lambda>n. 1000)
        (filter (\<lambda>task. \<not> t_completed task)
          [\<lparr>t_id = ''overdue'', t_title = ''essay'', t_notes = None, t_dueDate = Due 0,
            t_estimatedHours = Some (1 / 20), t_completed = False, t_activityId = None\<rparr>,
           \<lparr>t_id = ''future'', t_title = ''notes'', t_notes = None, t_dueDate = Due 86401000,
            t_estimatedHours = Some 0, t_completed = False, t_activityId = None\<rparr>])) =
     Some [(''future'', 10), (''overdue'', 5)]"
  by code_simp

section \<open>Allocation\<close>

lemma hd_sort_key_least:
  assumes "xs \<noteq> []"
  shows "hd (sort_key f xs) \<in> set xs \<and> (\<forall>x \<in> set xs. f (hd (sort_key f xs)) \<le> f x)"
proof -
  from assms have "sort_key f xs \<noteq> []"
    by (metis length_0_conv length_sort)
  then obtain y ys where ys: "sort_key f xs = y # ys"
    by (cases "sort_key f xs") auto
  have "sorted (map f (sort_key f xs))"
    by (rule sorted_sort_key)
  with ys have le: "\<forall>z \<in> set ys. f y \<le> f z"
    by simp
  have "set xs = set (y # ys)"
    using ys by (metis set_sort)
  with le ys show ?thesis
    by auto
qed

lemma seven_days: "length slotsByDay = 7 \<Longrightarrow> map (\<lambda>dy. slotsByDay ! dy) [0..<7] = slotsByDay"
  using map_nth [of slotsByDay] by simp

lemma slotPreference_le:
  "(slotPreference a \<le> slotPreference b) =
     (day a < day b \<or>
      (day a = day b \<and> (start a < start b \<or> (start a = start b \<and> duration b \<le> duration a))))"
  by (auto simp: slotPreference_def)

lemma findBestTimeSlot_None:
  assumes "length slotsByDay = 7"
  shows "(findBestTimeSlot slotsByDay d due used = None) =
     ({slot \<in> set (concat slotsByDay). slotKey slot \<notin> used \<and> d \<le> duration slot} = {})"
  using assms
  by (auto simp: findBestTimeSlot_def Let_def seven_days filter_empty_conv)

lemma findBestTimeSlot_Some:
  assumes "length slotsByDay = 7" and "findBestTimeSlot slotsByDay d due used = Some best"
  shows "best \<in> {slot \<in> set (concat slotsByDay). slotKey slot \<notin> used \<and> d \<le> duration slot}
       \<and> (\<forall>slot \<in> {slot \<in> set (concat slotsByDay). slotKey slot \<notin> used \<and> d \<le> duration slot}.
             slotPreference best \<le> slotPreference slot)"
proof -
  let ?suitable = "filter (\<lambda>slot. slotKey slot \<notin> used \<and> d \<le> duration slot) (concat slotsByDay)"
  from assms have ne: "?suitable \<noteq> []" and best: "best = hd (sort_key slotPreference ?suitable)"
    by (auto simp: findBestTimeSlot_def Let_def seven_days split: if_splits)
  from hd_sort_key_least [OF ne, of slotPreference] best show ?thesis
    by auto
qed

lemma findBestTimeSlot_unclaimed:
  "findBestTimeSlot slotsByDay d due used = Some slot \<Longrightarrow> slotKey slot \<notin> used"
proof -
  let ?suitable = "filter (\<lambda>slot. slotKey slot \<notin> used \<and> d \<le> duration slot)
      (concat (map (\<lambda>dy. slotsByDay ! dy) [0..<7]))"
  assume "findBestTimeSlot slotsByDay d due used = Some slot"
  then have ne: "?suitable \<noteq> []" and best: "slot = hd (sort_key slotPreference ?suitable)"
    by (auto simp: findBestTimeSlot_def Let_def split: if_splits)
  from hd_sort_key_least [OF ne, of slotPreference] best have "slot \<in> set ?suitable"
    by simp
  then show ?thesis by simp
qed

lemma allocate_used_mono:
  "used \<subseteq> fst (snd (allocate zone slotsByDay weekStart clk chunks (sess, used, reads)))"
proof (induction chunks arbitrary: sess used reads)
  case Nil
  show ?case by simp
next
  case (Cons chunk rest)
  show ?case
  proof (cases "findBestTimeSlot slotsByDay \<lceil>jsMul (estimatedHours chunk) 60\<rceil> (dueDate chunk) used")
    case None
    with Cons.IH [of used sess reads] show ?thesis by (simp add: Let_def)
  next
    case (Some best)
    with Cons.IH [of "insert (slotKey best) used"
        "sess @ [createStudySession zone chunk best weekStart (clk reads)]" "reads + 1"]
    show ?thesis by (auto simp: Let_def)
  qed
qed

lemma availableSlots_length: "length (availableSlots cfg timeBlocks) = 7"
  by (simp add: availableSlots_def Let_def)

lemma allocationQueue_sorted:
  "allocationQueue cfg clk tasks = Some (queue, reads) \<Longrightarrow>
     sorted_wrt (\<lambda>c c'. priority c' \<le> priority c) queue"
proof -
  assume "allocationQueue cfg clk tasks = Some (queue, reads)"
  then obtain taskChunks where q: "queue = sort_key (\<lambda>chunk. - priority chunk) taskChunks"
    by (auto simp: allocationQueue_def split: option.splits)
  have "sorted (map (\<lambda>chunk. - priority chunk) queue)"
    unfolding q by (rule sorted_sort_key)
  then show ?thesis
    by (simp add: sorted_map)
qed



lemma ne_I: "x \<in> A \<Longrightarrow> A \<noteq> {}"
  by blast

lemma slotKey_eq_iff:
  "(slotKey a = slotKey b) = (day a = day b \<and> start a = start b \<and> end' a = end' b)"
proof
  assume "slotKey a = slotKey b"
  then show "day a = day b \<and> start a = start b \<and> end' a = end' b"
    by (rule slotKey_inj)
next
  assume "day a = day b \<and> start a = start b \<and> end' a = end' b"
  then show "slotKey a = slotKey b"
    by (simp add: slotKey_def)
qed

lemma key_unclaimed:
  "(slotKey slot \<notin> slotKey ` chosen) =
     (\<forall>c \<in> chosen. day c \<noteq> day slot \<or> start c \<noteq> start slot \<or> end' c \<noteq> end' slot)"
proof -
  have "(slotKey slot \<notin> slotKey ` chosen) = (\<forall>c \<in> chosen. slotKey c \<noteq> slotKey slot)"
    by (simp add: image_iff) metis
  then show ?thesis
    by (simp only: slotKey_eq_iff de_Morgan_conj)
qed

text \<open>
  C1, as amended. The allocator takes the chunks in descending priority order (the
  queue is sorted). For the chunk at hand the required duration is the ceiling of
  estimatedHours * 60, the product rounded to a double first. The claimed keys are
  those of the slots chosen so far, and a key stands for one (day, start, end): the
  candidates are the slots of the seven days whose (day, start, end) differs from that
  of every chosen slot and whose duration is at least the required one. With no
  candidate the chunk is passed over: the sessions and the claimed keys stay as they
  are, and the run goes on. Otherwise the chosen slot is a candidate that comes first
  by day, then by start, then by longer duration; its session is appended and the slot
  joins the chosen ones. A claimed key stays claimed to the end of the run. (The slots
  that generateSchedule passes are always seven day lists.)
\<close>

theorem allocator_takes_least_unclaimed_slot:
  fixes slotsByDay :: "AvailableTimeSlot list list" and chunk :: TaskChunk
    and chosen :: "AvailableTimeSlot set"
  defines "required \<equiv> \<lceil>jsMul (estimatedHours chunk) 60\<rceil>"
  defines "candidates \<equiv>
    {slot \<in> set (concat slotsByDay).
       (\<forall>c \<in> chosen. day c \<noteq> day slot \<or> start c \<noteq> start slot \<or> end' c \<noteq> end' slot)
       \<and> required \<le> duration slot}"
  assumes seven: "length slotsByDay = 7"
  shows "(candidates = {} \<longrightarrow>
            allocate zone slotsByDay weekStart clk (chunk # rest) (sess, slotKey ` chosen, reads) =
              allocate zone slotsByDay weekStart clk rest (sess, slotKey ` chosen, reads))
       \<and> (candidates \<noteq> {} \<longrightarrow>
            (\<exists>best \<in> candidates.
                (\<forall>slot \<in> candidates.
                    day best < day slot \<or>
                    (day best = day slot \<and>
                      (start best < start slot \<or>
                       (start best = start slot \<and> duration slot \<le> duration best))))
              \<and> allocate zone slotsByDay weekStart clk (chunk # rest)
                    (sess, slotKey ` chosen, reads) =
                  allocate zone slotsByDay weekStart clk rest
                    (sess @ [createStudySession zone chunk best weekStart (clk reads)],
                     slotKey ` insert best chosen, reads + 1)))
       \<and> (\<forall>chunks sess' reads'.
             slotKey ` chosen \<subseteq>
               fst (snd (allocate zone slotsByDay weekStart clk chunks
                           (sess', slotKey ` chosen, reads'))))
       \<and> (\<forall>a b. (slotKey a = slotKey b) =
                  (day a = day b \<and> start a = start b \<and> end' a = end' b))
       \<and> (\<forall>cfg tasks queue n. allocationQueue cfg clk tasks = Some (queue, n) \<longrightarrow>
             sorted_wrt (\<lambda>c c'. priority c' \<le> priority c) queue)
       \<and> (\<forall>cfg timeBlocks. length (availableSlots cfg timeBlocks) = 7)"
proof -
  let ?used = "slotKey ` chosen"
  let ?found = "findBestTimeSlot slotsByDay required (dueDate chunk) ?used"
  have cand: "candidates =
      {slot \<in> set (concat slotsByDay). slotKey slot \<notin> ?used \<and> required \<le> duration slot}"
    unfolding candidates_def by (simp only: key_unclaimed)
  have none: "allocate zone slotsByDay weekStart clk (chunk # rest) (sess, ?used, reads) =
      allocate zone slotsByDay weekStart clk rest (sess, ?used, reads)" if "candidates = {}"
  proof -
    from that have "?found = None"
      unfolding cand by (simp add: findBestTimeSlot_None [OF seven])
    then show ?thesis
      by (simp add: Let_def required_def)
  qed
  have some: "\<exists>best \<in> candidates.
                (\<forall>slot \<in> candidates.
                    day best < day slot \<or>
                    (day best = day slot \<and>
                      (start best < start slot \<or>
                       (start best = start slot \<and> duration slot \<le> duration best))))
              \<and> allocate zone slotsByDay weekStart clk (chunk # rest) (sess, ?used, reads) =
                  allocate zone slotsByDay weekStart clk rest
                    (sess @ [createStudySession zone chunk best weekStart (clk reads)],
                     slotKey ` insert best chosen, reads + 1)" if "candidates \<noteq> {}"
  proof -
    from that have "?found \<noteq> None"
      unfolding cand by (simp add: findBestTimeSlot_None [OF seven])
    then obtain best where best: "?found = Some best"
      by auto
    from findBestTimeSlot_Some [OF seven best]
    have "best \<in> candidates" and "\<forall>slot \<in> candidates. slotPreference best \<le> slotPreference slot"
      unfolding cand by simp_all
    moreover have "allocate zone slotsByDay weekStart clk (chunk # rest) (sess, ?used, reads) =
                  allocate zone slotsByDay weekStart clk rest
                    (sess @ [createStudySession zone chunk best weekStart (clk reads)],
                     slotKey ` insert best chosen, reads + 1)"
      using best by (simp add: Let_def required_def)
    ultimately show ?thesis
      unfolding slotPreference_le by (intro bexI [of _ best] conjI)
  qed
  have mono: "\<forall>chunks sess' reads'.
             ?used \<subseteq> fst (snd (allocate zone slotsByDay weekStart clk chunks (sess', ?used, reads')))"
    by (intro allI allocate_used_mono)
  have keys: "\<forall>a b. (slotKey a = slotKey b) =
                  (day a = day b \<and> start a = start b \<and> end' a = end' b)"
    by (intro allI slotKey_eq_iff)
  have queue: "\<forall>cfg tasks queue n. allocationQueue cfg clk tasks = Some (queue, n) \<longrightarrow>
             sorted_wrt (\<lambda>c c'. priority c' \<le> priority c) queue"
    by (intro allI impI) (rule allocationQueue_sorted)
  have week: "\<forall>cfg timeBlocks. length (availableSlots cfg timeBlocks) = 7"
    by (intro allI availableSlots_length)
  show ?thesis
    by (intro conjI impI none some mono keys queue week)
qed

theorem allocator_takes_least_unclaimed_slot_witness:
  "length
      [[\<lparr>start = 5, end' = 1435, duration = 1430, day = 0\<rparr>,
         \<lparr>start = 5, end' = 1435, duration = 1435, day = 0\<rparr>],
        [\<lparr>start = 5, end' = 1435, duration = 1435, day = 1\<rparr>],
        [\<lparr>start = 5, end' = 1435, duration = 1435, day = 2\<rparr>],
        [\<lparr>start = 5, end' = 1435, duration = 1435, day = 3\<rparr>],
        [\<lparr>start = 5, end' = 1435, duration = 1435, day = 4\<rparr>],
        [\<lparr>start = 5, end' = 1435, duration = 1435, day = 5\<rparr>],
        [\<lparr>start = 5, end' = 1435, duration = 1435, day = 6\<rparr>]] = 7
   \<and> (\<exists>slot. slot \<in> set (concat
      [[\<lparr>start = 5, end' = 1435, duration = 1430, day = 0\<rparr>,
         \<lparr>start = 5, end' = 1435, duration = 1435, day = 0\<rparr>],
        [\<lparr>start = 5, end' = 1435, duration = 1435, day = 1\<rparr>],
        [\<lparr>start = 5, end' = 1435, duration = 1435, day = 2\<rparr>],
        [\<lparr>start = 5, end' = 1435, duration = 1435, day = 3\<rparr>],
        [\<lparr>start = 5, end' = 1435, duration = 1435, day = 4\<rparr>],
        [\<lparr>start = 5, end' = 1435, duration = 1435, day = 5\<rparr>],
        [\<lparr>start = 5, end' = 1435, duration = 1435, day = 6\<rparr>]])
        \<and> (day \<lparr>start = 5, end' = 1435, duration = 1435, day = 0\<rparr> \<noteq> day slot \<or> start \<lparr>start = 5, end' = 1435, duration = 1435, day = 0\<rparr> \<noteq> start slot \<or> end' \<lparr>start = 5, end' = 1435, duration = 1435, day = 0\<rparr> \<noteq> end' slot)
        \<and> \<lceil>jsMul (estimatedHours
       \<lparr>taskId = ''t'', title = ''essay'', c_notes = None, estimatedHours = 1,
        priority = 1 / 10, dueDate = TBD, activityId = None, chunkIndex = 0, totalChunks = 1\<rparr>) 60\<rceil> \<le> duration slot)
   \<and> (\<exists>best. day best = 1 \<and>
         allocate utcZone
           [[\<lparr>start = 5, end' = 1435, duration = 1430, day = 0\<rparr>,
         \<lparr>start = 5, end' = 1435, duration = 1435, day = 0\<rparr>],
        [\<lparr>start = 5, end' = 1435, duration = 1435, day = 1\<rparr>],
        [\<lparr>start = 5, end' = 1435, duration = 1435, day = 2\<rparr>],
        [\<lparr>start = 5, end' = 1435, duration = 1435, day = 3\<rparr>],
        [\<lparr>start = 5, end' = 1435, duration = 1435, day = 4\<rparr>],
        [\<lparr>start = 5, end' = 1435, duration = 1435, day = 5\<rparr>],
        [\<lparr>start = 5, end' = 1435, duration = 1435, day = 6\<rparr>]] 0 (\<lambda>n. 0)
           [\<lparr>taskId = ''t'', title = ''essay'', c_notes = None, estimatedHours = 1,
        priority = 1 / 10, dueDate = TBD, activityId = None, chunkIndex = 0, totalChunks = 1\<rparr>]
           ([], slotKey ` {\<lparr>start = 5, end' = 1435, duration = 1435, day = 0\<rparr>}, 0) =
         ([createStudySession utcZone
            \<lparr>taskId = ''t'', title = ''essay'', c_notes = None, estimatedHours = 1,
        priority = 1 / 10, dueDate = TBD, activityId = None, chunkIndex = 0, totalChunks = 1\<rparr> best 0 0],
          slotKey ` {best, \<lparr>start = 5, end' = 1435, duration = 1435, day = 0\<rparr>}, 1))"
proof -
  let ?S = "[[\<lparr>start = 5, end' = 1435, duration = 1430, day = 0\<rparr>,
         \<lparr>start = 5, end' = 1435, duration = 1435, day = 0\<rparr>],
        [\<lparr>start = 5, end' = 1435, duration = 1435, day = 1\<rparr>],
        [\<lparr>start = 5, end' = 1435, duration = 1435, day = 2\<rparr>],
        [\<lparr>start = 5, end' = 1435, duration = 1435, day = 3\<rparr>],
        [\<lparr>start = 5, end' = 1435, duration = 1435, day = 4\<rparr>],
        [\<lparr>start = 5, end' = 1435, duration = 1435, day = 5\<rparr>],
        [\<lparr>start = 5, end' = 1435, duration = 1435, day = 6\<rparr>]]"
  let ?c = "\<lparr>taskId = ''t'', title = ''essay'', c_notes = None, estimatedHours = 1,
        priority = 1 / 10, dueDate = TBD, activityId = None, chunkIndex = 0, totalChunks = 1\<rparr>"
  let ?s0 = "\<lparr>start = 5, end' = 1435, duration = 1435, day = 0\<rparr>"
  let ?s1 = "\<lparr>start = 5, end' = 1435, duration = 1435, day = 1\<rparr>"
  let ?cand = "{slot \<in> set (concat ?S).
       (\<forall>c \<in> {?s0}. day c \<noteq> day slot \<or> start c \<noteq> start slot \<or> end' c \<noteq> end' slot)
       \<and> \<lceil>jsMul (estimatedHours ?c) 60\<rceil> \<le> duration slot}"
  have seven: "length ?S = 7" by simp
  have r: "\<lceil>jsMul 1 60\<rceil> = 60" by code_simp
  have s1: "?s1 \<in> ?cand" by (simp add: r)
  then have ne: "?cand \<noteq> {}" by (rule ne_I)
  note inst = allocator_takes_least_unclaimed_slot [OF seven, where chunk = ?c
      and chosen = "{?s0}" and zone = utcZone and weekStart = 0 and clk = "\<lambda>n. 0"
      and rest = "[]" and sess = "[]" and reads = 0]
  from inst [THEN conjunct2, THEN conjunct1] ne
  obtain best where best: "best \<in> ?cand"
    and least: "\<forall>slot \<in> ?cand.
                    day best < day slot \<or>
                    (day best = day slot \<and>
                      (start best < start slot \<or>
                       (start best = start slot \<and> duration slot \<le> duration best)))"
    and step: "allocate utcZone ?S 0 (\<lambda>n. 0) [?c] ([], slotKey ` {?s0}, 0) =
                  allocate utcZone ?S 0 (\<lambda>n. 0) []
                    ([] @ [createStudySession utcZone ?c best 0 0],
                     slotKey ` insert best {?s0}, 0 + 1)"
    by (elim impE bexE conjE)
  from least s1 have "day best < day ?s1 \<or>
                    (day best = day ?s1 \<and>
                      (start best < start ?s1 \<or>
                       (start best = start ?s1 \<and> duration ?s1 \<le> duration best)))"
    by (rule bspec)
  then have le: "day best \<le> 1" by (elim disjE conjE) simp_all
  from best have "best \<in> set (concat ?S) \<and>
       (\<forall>c \<in> {?s0}. day c \<noteq> day best \<or> start c \<noteq> start best \<or> end' c \<noteq> end' best)
       \<and> \<lceil>jsMul (estimatedHours ?c) 60\<rceil> \<le> duration best"
    by (rule CollectD)
  then have mem: "best \<in> set (concat ?S)"
    and diff: "day best \<noteq> 0 \<or> start best \<noteq> 5 \<or> end' best \<noteq> 1435"
    by simp_all
  have "\<forall>slot \<in> set (concat ?S). day slot = 0 \<longrightarrow> start slot = 5 \<and> end' slot = 1435"
    by simp
  from this mem have "day best = 0 \<longrightarrow> start best = 5 \<and> end' best = 1435"
    by (rule bspec)
  with diff have "day best \<noteq> 0" by (elim disjE) simp_all
  with le have d: "day best = 1" by simp
  from step have "allocate utcZone ?S 0 (\<lambda>n. 0) [?c] ([], slotKey ` {?s0}, 0) =
      ([createStudySession utcZone ?c best 0 0], slotKey ` {best, ?s0}, 1)"
    by (simp only: allocate.simps append_Nil One_nat_def add_0)
  with d have "\<exists>best. day best = 1 \<and>
      allocate utcZone ?S 0 (\<lambda>n. 0) [?c] ([], slotKey ` {?s0}, 0) =
      ([createStudySession utcZone ?c best 0 0], slotKey ` {best, ?s0}, 1)"
    by (intro exI [of _ best] conjI)
  moreover have "\<exists>slot. slot \<in> set (concat ?S)
        \<and> (day ?s0 \<noteq> day slot \<or> start ?s0 \<noteq> start slot \<or> end' ?s0 \<noteq> end' slot)
        \<and> \<lceil>jsMul (estimatedHours ?c) 60\<rceil> \<le> duration slot"
    by (intro exI [of _ ?s1]) (simp add: r)
  ultimately show ?thesis
    using seven by (intro conjI)
qed

text \<open>
  C1 as stated fails where two slots of a day share their (day, start, end). A busy
  period from 1440 to 0 on day 0 gives that day a slot from 5 to 1435 of duration 1430
  and another from 5 to 1435 of duration 1435, both with the key 0-5-1435. The first
  one-hour chunk takes the longer one; the other, never chosen and long enough, is no
  candidate for the second chunk, which goes to day 1. Also, the required duration
  is not the ceiling of the exact product: for the double nearest to 0.55 hours the
  exact product is a little more than 33 and its ceiling 34, and the code asks for 33
  minutes.
\<close>

theorem unclaimed_slot_passed_over_counterexample:
  "availableSlots DEFAULT_SCHEDULING_CONFIG
      [\<lparr>tb_day = 0, tb_startTime = 1440, tb_endTime = 0, tb_type = ''busy''\<rparr>] ! 0 =
     [\<lparr>start = 5, end' = 1435, duration = 1430, day = 0\<rparr>,
      \<lparr>start = 5, end' = 1435, duration = 1435, day = 0\<rparr>]
   \<and> map_option (\<lambda>g. map (\<lambda>s. (s_taskId s, dayOfWeek s, startTime s, endTime s)) (sessions g))
       (generateSchedule DEFAULT_SCHEDULING_CONFIG utcZone (\<lambda>n. 0) ''u''
          [\<lparr>t_id = ''a'', t_title = ''essay'', t_notes = None, t_dueDate = TBD,
            t_estimatedHours = Some 1, t_completed = False, t_activityId = None\<rparr>,
           \<lparr>t_id = ''b'', t_title = ''notes'', t_notes = None, t_dueDate = TBD,
            t_estimatedHours = Some 1, t_completed = False, t_activityId = None\<rparr>]
          [\<lparr>tb_day = 0, tb_startTime = 1440, tb_endTime = 0, tb_type = ''busy''\<rparr>] 0) =
       Some [(''a'', 0, 5, 65), (''b'', 1, 1445, 1505)]
   \<and> \<lceil>toDouble (11 / 20) * 60\<rceil> = 34
   \<and> \<lceil>jsMul (toDouble (11 / 20)) 60\<rceil> = 33"
  by code_simp

section \<open>Two runs of the generation\<close>

lemma scoreAndChunk_clock:
  "\<forall>i < length tasks. clk1 (reads + i) = clk2 (reads + i) \<Longrightarrow>
     scoreAndChunk cfg clk1 tasks reads acc = scoreAndChunk cfg clk2 tasks reads acc"
proof (induction tasks arbitrary: reads acc)
  case Nil
  show ?case by simp
next
  case (Cons task rest)
  from Cons.prems have here: "clk1 reads = clk2 reads"
    by (metis add.right_neutral length_greater_0_conv list.distinct(1))
  have "\<forall>i < length rest. clk1 (reads + 1 + i) = clk2 (reads + 1 + i)"
  proof (intro allI impI)
    fix i assume "i < length rest"
    then have "Suc i < length (task # rest)" by simp
    with Cons.prems have "clk1 (reads + Suc i) = clk2 (reads + Suc i)" by blast
    then show "clk1 (reads + 1 + i) = clk2 (reads + 1 + i)" by simp
  qed
  from Cons.IH [OF this] here show ?case
    by (simp split: option.splits)
qed

lemma createStudySession_agree:
  "agreeExceptId (createStudySession zone chunk slot weekStart t1)
     (createStudySession zone chunk slot weekStart t2)"
  by (simp add: agreeExceptId_def createStudySession_def Let_def)

lemma allocate_clock:
  "list_all2 agreeExceptId sess1 sess2 \<Longrightarrow>
     list_all2 agreeExceptId
       (fst (allocate zone slotsByDay weekStart clk1 chunks (sess1, used, r1)))
       (fst (allocate zone slotsByDay weekStart clk2 chunks (sess2, used, r2)))"
proof (induction chunks arbitrary: sess1 sess2 used r1 r2)
  case Nil
  then show ?case by simp
next
  case (Cons chunk rest)
  show ?case
  proof (cases "findBestTimeSlot slotsByDay \<lceil>jsMul (estimatedHours chunk) 60\<rceil> (dueDate chunk) used")
    case None
    with Cons.IH [OF Cons.prems] show ?thesis
      by (simp add: Let_def)
  next
    case (Some best)
    have "list_all2 agreeExceptId
        (sess1 @ [createStudySession zone chunk best weekStart (clk1 r1)])
        (sess2 @ [createStudySession zone chunk best weekStart (clk2 r2)])"
      using Cons.prems by (simp add: list_all2_appendI createStudySession_agree)
    from Cons.IH [OF this] Some show ?thesis
      by (simp add: Let_def)
  qed
qed

text \<open>
  C8. Two runs on the same tasks, busy periods and week start, on the same host, whose
  clocks show the
  same values while the tasks are scored (in particular the same frozen value), either
  both return or both do not; when they return, the session lists have equal length and
  corresponding sessions agree on start time, end time, day of week, title, notes and
  priority (and on task, chunk index and activity). The identifiers and generatedAt
  follow the later clock reads and are not compared. The runs return unless the maximum
  session length is 0.
\<close>

theorem two_runs_agree_except_ids:
  fixes tasks :: "TodoItem list"
  assumes scoring: "\<forall>i < length (filter (\<lambda>task. \<not> t_completed task) tasks). clk1 i = clk2 i"
  shows "rel_option sameSchedule
           (generateSchedule cfg zone clk1 user tasks timeBlocks weekStart)
           (generateSchedule cfg zone clk2 user tasks timeBlocks weekStart)
       \<and> (maxSessionLength cfg \<noteq> 0 \<longrightarrow>
            generateSchedule cfg zone clk1 user tasks timeBlocks weekStart \<noteq> None)"
proof -
  let ?inc = "filter (\<lambda>task. \<not> t_completed task) tasks"
  have agree: "rel_option sameSchedule
           (generateSchedule cfg zone clk1 user tasks timeBlocks weekStart)
           (generateSchedule cfg zone clk2 user tasks timeBlocks weekStart)"
  proof -
  from scoring have "scoreAndChunk cfg clk1 ?inc 0 [] = scoreAndChunk cfg clk2 ?inc 0 []"
    by (intro scoreAndChunk_clock) simp
  then have q: "allocationQueue cfg clk1 ?inc = allocationQueue cfg clk2 ?inc"
    by (simp add: allocationQueue_def)
  show ?thesis
  proof (cases "allocationQueue cfg clk2 ?inc")
    case None
    with q show ?thesis
      by (simp add: generateSchedule_def Let_def sameSchedule_def)
  next
    case (Some qr)
    obtain queue reads where qr: "qr = (queue, reads)" by (cases qr)
    have "list_all2 agreeExceptId
       (fst (allocate zone (availableSlots cfg timeBlocks) weekStart clk1 queue ([], {}, reads)))
       (fst (allocate zone (availableSlots cfg timeBlocks) weekStart clk2 queue ([], {}, reads)))"
      by (rule allocate_clock) simp
    with q Some qr show ?thesis
      by (simp add: generateSchedule_def Let_def sameSchedule_def split_beta)
  qed
  qed
  with generateSchedule_returns [of cfg zone clk1 user tasks timeBlocks weekStart] show ?thesis
    by blast
qed


theorem two_runs_agree_except_ids_witness:
  "(\<lambda>n::nat. 1000::int) 0 = (\<lambda>n::nat. 1000 + 7 * int n) 0
   \<and> (\<exists>g1 g2.
         generateSchedule DEFAULT_SCHEDULING_CONFIG utcZone (\<lambda>n. 1000) ''u''
           [\<lparr>t_id = ''t'', t_title = ''essay'', t_notes = None, t_dueDate = Due 86400000,
             t_estimatedHours = Some 1, t_completed = False, t_activityId = None\<rparr>] [] 0 = Some g1
       \<and> generateSchedule DEFAULT_SCHEDULING_CONFIG utcZone (\<lambda>n. 1000 + 7 * int n) ''u''
           [\<lparr>t_id = ''t'', t_title = ''essay'', t_notes = None, t_dueDate = Due 86400000,
             t_estimatedHours = Some 1, t_completed = False, t_activityId = None\<rparr>] [] 0 = Some g2
       \<and> sameSchedule g1 g2
       \<and> map s_id (sessions g1) = [''session-t-0-1000'']
       \<and> map s_id (sessions g2) = [''session-t-0-1007''])"
proof -
  let ?tasks = "[\<lparr>t_id = ''t'', t_title = ''essay'', t_notes = None, t_dueDate = Due 86400000,
             t_estimatedHours = Some 1, t_completed = False, t_activityId = None\<rparr>]"
  let ?A = "\<lambda>n::nat. 1000::int" and ?B = "\<lambda>n::nat. 1000 + 7 * int n"
  have a: "map_option (\<lambda>g. map s_id (sessions g))
      (generateSchedule DEFAULT_SCHEDULING_CONFIG utcZone ?A ''u'' ?tasks [] 0) =
        Some [''session-t-0-1000'']"
    by code_simp
  have b: "map_option (\<lambda>g. map s_id (sessions g))
      (generateSchedule DEFAULT_SCHEDULING_CONFIG utcZone ?B ''u'' ?tasks [] 0) =
        Some [''session-t-0-1007'']"
    by code_simp
  from a obtain g1 where g1: "generateSchedule DEFAULT_SCHEDULING_CONFIG utcZone ?A ''u'' ?tasks [] 0 = Some g1"
    "map s_id (sessions g1) = [''session-t-0-1000'']"
    unfolding map_option_eq_Some by (elim exE conjE)
  from b obtain g2 where g2: "generateSchedule DEFAULT_SCHEDULING_CONFIG utcZone ?B ''u'' ?tasks [] 0 = Some g2"
    "map s_id (sessions g2) = [''session-t-0-1007'']"
    unfolding map_option_eq_Some by (elim exE conjE)
  have "\<forall>i < length (filter (\<lambda>task. \<not> t_completed task) ?tasks). ?A i = ?B i"
    by simp
  from two_runs_agree_except_ids [OF this, of DEFAULT_SCHEDULING_CONFIG utcZone "''u''" "[]" 0]
  have "sameSchedule g1 g2"
    by (simp add: g1 g2)
  with g1 g2 show ?thesis
    by simp
qed

section \<open>Slot exclusivity\<close>

lemma setHoursOffset_cases:
  "setHoursOffset m = (if 0 \<le> m \<or> m mod 60 = 0 then m else m - 60)"
proof (cases "0 \<le> m")
  case True
  then show ?thesis
    by (cases "m = 0") (simp_all add: setHoursOffset_def js_rem_def)
next
  case False
  then have m: "m < 0" by simp
  have d: "(m div 60) * 60 = m - m mod 60"
    by (simp add: algebra_simps minus_mod_eq_mult_div)
  have "(- m) mod 60 = (if m mod 60 = 0 then 0 else 60 - m mod 60)"
    by (rule zmod_zminus1_eq_if)
  with m d show ?thesis
    by (simp add: setHoursOffset_def js_rem_def)
qed

lemma setHoursOffset_inj:
  assumes "setHoursOffset m = setHoursOffset m'"
  shows "m = m'"
proof -
  have shift: "(k - 60) mod 60 = k mod 60" for k :: int
    by simp
  show ?thesis
  proof (cases "0 \<le> m \<or> m mod 60 = 0")
    case True
    note m = this
    show ?thesis
    proof (cases "0 \<le> m' \<or> m' mod 60 = 0")
      case True
      with m assms show ?thesis by (simp add: setHoursOffset_cases)
    next
      case False
      with m assms have eq: "m = m' - 60" by (simp add: setHoursOffset_cases)
      with False have "m < 0" by simp
      with m have "m mod 60 = 0" by simp
      with eq shift [of m'] have "m' mod 60 = 0" by simp
      with False show ?thesis by simp
    qed
  next
    case False
    note m = this
    show ?thesis
    proof (cases "0 \<le> m' \<or> m' mod 60 = 0")
      case True
      with m assms have eq: "m' = m - 60" by (simp add: setHoursOffset_cases)
      with m have "m' < 0" by simp
      with True have "m' mod 60 = 0" by simp
      with eq shift [of m] have "m mod 60 = 0" by simp
      with m show ?thesis by simp
    next
      case False
      with m assms show ?thesis by (simp add: setHoursOffset_cases)
    qed
  qed
qed


lemma sweep_Cons:
  "fst (sweep cfg dy ((s, e) # bs) c []) =
     (if minSessionLength cfg \<le> s - c - bufferTime cfg * 2
      then [\<lparr>start = c + bufferTime cfg, end' = s - bufferTime cfg,
             duration = s - c - bufferTime cfg * 2, day = dy\<rparr>]
      else []) @ fst (sweep cfg dy bs e [])"
  "snd (sweep cfg dy ((s, e) # bs) c []) = snd (sweep cfg dy bs e [])"
  using sweep_acc [of cfg dy bs e "[\<lparr>start = c + bufferTime cfg, end' = s - bufferTime cfg,
             duration = s - c - bufferTime cfg * 2, day = dy\<rparr>]"]
  by (simp_all add: Let_def)

lemma day_slots_day:
  "\<forall>slot \<in> set (fst (sweep cfg dy bs c []) @ trailingSlot cfg dy (snd (sweep cfg dy bs c []))).
     day slot = dy"
proof (induction bs arbitrary: c)
  case Nil
  show ?case by (simp add: trailingSlot_def Let_def)
next
  case (Cons p bs)
  obtain s e where p: "p = (s, e)" by (cases p)
  from Cons.IH [of e] show ?case
    unfolding p by (auto simp: sweep_Cons simp del: sweep.simps)
qed

lemma day_slots_bounded_below:
  assumes "\<forall>p \<in> set bs. lo \<le> fst p \<and> fst p \<le> snd p" and "lo \<le> c"
  shows "\<forall>slot \<in> set (fst (sweep cfg dy bs c []) @ trailingSlot cfg dy (snd (sweep cfg dy bs c []))).
           lo + bufferTime cfg \<le> start slot"
  using assms
proof (induction bs arbitrary: c)
  case Nil
  then show ?case by (simp add: trailingSlot_def Let_def)
next
  case (Cons p bs)
  obtain s e where p: "p = (s, e)" by (cases p)
  from Cons.prems p have "lo \<le> e" and rest: "\<forall>p \<in> set bs. lo \<le> fst p \<and> fst p \<le> snd p"
    by auto
  from Cons.IH [OF rest \<open>lo \<le> e\<close>] Cons.prems(2) show ?case
    unfolding p by (auto simp: sweep_Cons simp del: sweep.simps)
qed

lemma day_slots_distinct_starts:
  assumes "sorted (map fst bs)" and "\<forall>p \<in> set bs. fst p \<le> snd p"
    and "0 < 2 * bufferTime cfg + minSessionLength cfg"
  shows "distinct (map start
           (fst (sweep cfg dy bs c []) @ trailingSlot cfg dy (snd (sweep cfg dy bs c []))))"
  using assms(1,2)
proof (induction bs arbitrary: c)
  case Nil
  show ?case by (simp add: trailingSlot_def Let_def)
next
  case (Cons p bs)
  obtain s e where p: "p = (s, e)" by (cases p)
  let ?rest = "fst (sweep cfg dy bs e []) @ trailingSlot cfg dy (snd (sweep cfg dy bs e []))"
  from Cons.prems p have sorted: "sorted (map fst bs)" and wf: "\<forall>p \<in> set bs. fst p \<le> snd p"
    and se: "s \<le> e" and lo: "\<forall>p \<in> set bs. s \<le> fst p \<and> fst p \<le> snd p"
    by auto
  from Cons.IH [OF sorted wf] have d: "distinct (map start ?rest)" .
  from day_slots_bounded_below [OF lo se]
  have b: "\<forall>slot \<in> set ?rest. s + bufferTime cfg \<le> start slot"
    by blast
  show ?case
  proof (cases "minSessionLength cfg \<le> s - c - bufferTime cfg * 2")
    case True
    with assms(3) have "c + bufferTime cfg < s + bufferTime cfg" by simp
    with b have "c + bufferTime cfg \<notin> start ` set ?rest" by fastforce
    with d True show ?thesis
      unfolding p by (auto simp: sweep_Cons simp del: sweep.simps)
  next
    case False
    with d show ?thesis
      unfolding p by (simp add: sweep_Cons del: sweep.simps)
  qed
qed

lemma nodeData_toNodes: "nodeData (toNodes ds) = ds"
  by (induction ds) simp_all

lemma availableSlots_days:
  "availableSlots cfg timeBlocks =
     map (\<lambda>dy. let bs = sort_key fst (dayBusy timeBlocks dy)
               in fst (sweep cfg dy bs 0 []) @ trailingSlot cfg dy (snd (sweep cfg dy bs 0 [])))
       [0..<7]"
proof -
  have "calculateAvailableTimeSlots cfg (convertTimeBlocksToBusyTimeLists timeBlocks ! dy) dy =
      (let bs = sort_key fst (dayBusy timeBlocks dy)
       in fst (sweep cfg dy bs 0 []) @ trailingSlot cfg dy (snd (sweep cfg dy bs 0 [])))"
    if "dy \<in> set [0..<7]" for dy
  proof -
    from that have "dy < length [0..<7]" by simp
    then have "head (convertTimeBlocksToBusyTimeLists timeBlocks ! dy) =
        toNodes (dayBusy timeBlocks dy)"
      unfolding convertTimeBlocksToBusyTimeLists_def
      by (simp add: Let_def dayBusy_def del: upt_Suc)
    then show ?thesis
      by (simp add: calculateAvailableTimeSlots_def Let_def nodeData_toNodes split_beta)
  qed
  then show ?thesis
    unfolding availableSlots_def Let_def by (intro map_cong refl) simp
qed

lemma week_slots_distinct:
  assumes "distinct ds"
    and "\<forall>d \<in> set ds. distinct (map start (F d)) \<and> (\<forall>slot \<in> set (F d). day slot = d)"
  shows "distinct (map (\<lambda>slot. (day slot, start slot)) (concat (map F ds)))"
  using assms
proof (induction ds)
  case Nil
  show ?case by simp
next
  case (Cons d ds)
  from Cons.prems have here: "distinct (map start (F d))" and dayd: "\<forall>slot \<in> set (F d). day slot = d"
    and notin: "d \<notin> set ds" and others: "\<forall>d' \<in> set ds. \<forall>slot \<in> set (F d'). day slot = d'"
    by auto
  from Cons.IH Cons.prems have rest: "distinct (map (\<lambda>slot. (day slot, start slot)) (concat (map F ds)))"
    by simp
  from here have "inj_on start (set (F d))" and dF: "distinct (F d)"
    by (simp_all add: distinct_map)
  then have "inj_on (\<lambda>slot. (day slot, start slot)) (set (F d))"
    by (auto simp: inj_on_def)
  with dF have first: "distinct (map (\<lambda>slot. (day slot, start slot)) (F d))"
    by (simp add: distinct_map)
  have "(day a, start a) \<noteq> (day b, start b)"
    if "a \<in> set (F d)" and "b \<in> set (concat (map F ds))" for a b
  proof -
    from that(2) obtain d' where "d' \<in> set ds" and "b \<in> set (F d')" by auto
    with others have "day b = d'" by blast
    with \<open>d' \<in> set ds\<close> notin that(1) dayd show ?thesis by auto
  qed
  then have "(\<lambda>slot. (day slot, start slot)) ` set (F d) \<inter>
      (\<lambda>slot. (day slot, start slot)) ` set (concat (map F ds)) = {}"
    by blast
  with first rest show ?case
    by simp
qed

lemma availableSlots_distinct:
  assumes wf: "\<forall>timeBlock \<in> set timeBlocks. tb_startTime timeBlock \<le> tb_endTime timeBlock"
    and cfg: "0 < 2 * bufferTime cfg + minSessionLength cfg"
  shows "distinct (map (\<lambda>slot. (day slot, start slot))
           (concat (map (\<lambda>dy. availableSlots cfg timeBlocks ! dy) [0..<7])))"
proof -
  let ?F = "\<lambda>dy. let bs = sort_key fst (dayBusy timeBlocks dy)
               in fst (sweep cfg dy bs 0 []) @ trailingSlot cfg dy (snd (sweep cfg dy bs 0 []))"
  have len: "length (availableSlots cfg timeBlocks) = 7"
    by (rule availableSlots_length)
  have "distinct (map start (?F d)) \<and> (\<forall>slot \<in> set (?F d). day slot = d)" for d
  proof -
    let ?bs = "sort_key fst (dayBusy timeBlocks d)"
    have s: "sorted (map fst ?bs)" by (rule sorted_sort_key)
    have w: "\<forall>p \<in> set ?bs. fst p \<le> snd p"
      using wf by (auto simp: dayBusy_def)
    from day_slots_distinct_starts [OF s w cfg, of d 0] day_slots_day [of cfg d ?bs 0]
    show ?thesis
      by (simp add: Let_def)
  qed
  then have "distinct (map (\<lambda>slot. (day slot, start slot)) (concat (map ?F [0..<7])))"
    by (intro week_slots_distinct) simp_all
  moreover have "map (\<lambda>dy. availableSlots cfg timeBlocks ! dy) [0..<7] =
      availableSlots cfg timeBlocks"
    by (rule seven_days [OF len])
  moreover have "availableSlots cfg timeBlocks = map ?F [0..<7]"
    by (rule availableSlots_days)
  ultimately show ?thesis
    by (simp only:)
qed


lemma findBestTimeSlot_member:
  "findBestTimeSlot slotsByDay d due used = Some slot \<Longrightarrow>
     slot \<in> set (concat (map (\<lambda>dy. slotsByDay ! dy) [0..<7]))"
proof -
  let ?suitable = "filter (\<lambda>slot. slotKey slot \<notin> used \<and> d \<le> duration slot)
      (concat (map (\<lambda>dy. slotsByDay ! dy) [0..<7]))"
  assume "findBestTimeSlot slotsByDay d due used = Some slot"
  then have ne: "?suitable \<noteq> []" and best: "slot = hd (sort_key slotPreference ?suitable)"
    by (auto simp: findBestTimeSlot_def Let_def split: if_splits)
  from hd_sort_key_least [OF ne, of slotPreference] best have "slot \<in> set ?suitable"
    by simp
  then show ?thesis by simp
qed

lemma createStudySession_position:
  "dayOfWeek (createStudySession zone chunk slot weekStart t) = day slot"
  "startTime (createStudySession zone chunk slot weekStart t) =
     setHours zone (addDays zone weekStart (int (day slot))) (start slot div 60)
            (js_rem (start slot) 60)"
  by (simp_all add: createStudySession_def Let_def)

text \<open>Where every local time exists, the instants of two local times of one day differ
  when the minutes asked for differ.\<close>

lemma setHours_inj:
  assumes zone: "\<forall>l. localOf zone (utcOf zone l) = l"
    and same: "setHours zone date (m div 60) (js_rem m 60) =
      setHours zone date (m' div 60) (js_rem m' 60)"
  shows "m = m'"
proof -
  let ?midnight = "localMidnight (localOf zone date)"
  from same have "utcOf zone (?midnight + setHoursOffset m) =
      utcOf zone (?midnight + setHoursOffset m')"
    by (simp only: setHours_offset)
  then have "localOf zone (utcOf zone (?midnight + setHoursOffset m)) =
      localOf zone (utcOf zone (?midnight + setHoursOffset m'))"
    by (rule arg_cong)
  with zone have "?midnight + setHoursOffset m = ?midnight + setHoursOffset m'"
    by (simp only:)
  then have "setHoursOffset m = setHoursOffset m'"
    by simp
  then show ?thesis
    by (rule setHoursOffset_inj)
qed

lemma allocate_distinct_positions:
  assumes zone: "\<forall>l. localOf zone (utcOf zone l) = l"
    and slots: "distinct (map (\<lambda>slot. (day slot, start slot))
      (concat (map (\<lambda>dy. slotsByDay ! dy) [0..<7])))"
    and sess: "distinct (map (\<lambda>s. (dayOfWeek s, startTime s)) sess)"
    and claimed: "\<forall>s \<in> set sess. \<exists>slot \<in> set (concat (map (\<lambda>dy. slotsByDay ! dy) [0..<7])).
        slotKey slot \<in> used \<and> dayOfWeek s = day slot
        \<and> startTime s = setHours zone (addDays zone weekStart (int (day slot))) (start slot div 60)
            (js_rem (start slot) 60)"
  shows "distinct (map (\<lambda>s. (dayOfWeek s, startTime s))
           (fst (allocate zone slotsByDay weekStart clk chunks (sess, used, reads))))"
  using sess claimed
proof (induction chunks arbitrary: sess used reads)
  case Nil
  then show ?case by simp
next
  case (Cons chunk rest)
  let ?all = "concat (map (\<lambda>dy. slotsByDay ! dy) [0..<7])"
  let ?pos = "\<lambda>s. (dayOfWeek s, startTime s)"
  show ?case
  proof (cases "findBestTimeSlot slotsByDay \<lceil>jsMul (estimatedHours chunk) 60\<rceil> (dueDate chunk) used")
    case None
    then have "allocate zone slotsByDay weekStart clk (chunk # rest) (sess, used, reads) =
        allocate zone slotsByDay weekStart clk rest (sess, used, reads)"
      by (simp add: Let_def)
    with Cons.IH [OF Cons.prems] show ?thesis
      by (simp only:)
  next
    case (Some best)
    let ?new = "createStudySession zone chunk best weekStart (clk reads)"
    from findBestTimeSlot_member [OF Some] have mem: "best \<in> set ?all" .
    from findBestTimeSlot_unclaimed [OF Some] have free: "slotKey best \<notin> used" .
    from slots have inj: "inj_on (\<lambda>slot. (day slot, start slot)) (set ?all)"
      by (simp only: distinct_map)
    have fresh: "?pos ?new \<notin> ?pos ` set sess"
    proof
      assume "?pos ?new \<in> ?pos ` set sess"
      then obtain s where s: "s \<in> set sess" and same: "?pos ?new = ?pos s"
        by (elim imageE)
      from Cons.prems(2) [rule_format, OF s] obtain slot where slot: "slot \<in> set ?all"
        "slotKey slot \<in> used" "dayOfWeek s = day slot"
        "startTime s = setHours zone (addDays zone weekStart (int (day slot))) (start slot div 60)
            (js_rem (start slot) 60)"
        by (elim bexE conjE)
      from same have "dayOfWeek ?new = dayOfWeek s" and "startTime ?new = startTime s"
        by (simp_all only: prod.inject)
      with slot(3,4) have d: "day best = day slot"
        and off: "setHours zone (addDays zone weekStart (int (day best))) (start best div 60)
            (js_rem (start best) 60) =
          setHours zone (addDays zone weekStart (int (day slot))) (start slot div 60)
            (js_rem (start slot) 60)"
        by (simp_all only: createStudySession_position)
      from off have "setHours zone (addDays zone weekStart (int (day slot))) (start best div 60)
            (js_rem (start best) 60) =
          setHours zone (addDays zone weekStart (int (day slot))) (start slot div 60)
            (js_rem (start slot) 60)"
        by (simp only: d)
      with zone have "start best = start slot"
        by (rule setHours_inj)
      with d have "(day best, start best) = (day slot, start slot)"
        by (simp only:)
      from inj_onD [OF inj this mem slot(1)] have "best = slot" .
      with slot(2) free show False by simp
    qed
    have d': "distinct (map ?pos (sess @ [?new]))"
      using Cons.prems(1) fresh by (simp only: map_append distinct_append list.map
          distinct.simps set_map set_simps) simp
    have c': "\<forall>s \<in> set (sess @ [?new]). \<exists>slot \<in> set ?all.
        slotKey slot \<in> insert (slotKey best) used \<and> dayOfWeek s = day slot
        \<and> startTime s = setHours zone (addDays zone weekStart (int (day slot))) (start slot div 60)
            (js_rem (start slot) 60)"
    proof
      fix s assume "s \<in> set (sess @ [?new])"
      then consider "s \<in> set sess" | "s = ?new" by auto
      then show "\<exists>slot \<in> set ?all.
        slotKey slot \<in> insert (slotKey best) used \<and> dayOfWeek s = day slot
        \<and> startTime s = setHours zone (addDays zone weekStart (int (day slot))) (start slot div 60)
            (js_rem (start slot) 60)"
      proof cases
        case 1
        from Cons.prems(2) [rule_format, OF 1] obtain slot where slot: "slot \<in> set ?all"
          "slotKey slot \<in> used" "dayOfWeek s = day slot"
          "startTime s = setHours zone (addDays zone weekStart (int (day slot))) (start slot div 60)
            (js_rem (start slot) 60)"
          by (elim bexE conjE)
        from slot(2) have "slotKey slot \<in> insert (slotKey best) used"
          by (rule insertI2)
        with slot(1,3,4) show ?thesis
          by (intro bexI [of _ slot] conjI)
      next
        case 2
        have "slotKey best \<in> insert (slotKey best) used"
          by (rule insertI1)
        with mem show ?thesis
          unfolding 2 createStudySession_position
          by (intro bexI [of _ best] conjI refl)
      qed
    qed
    from Some have "allocate zone slotsByDay weekStart clk (chunk # rest) (sess, used, reads) =
        allocate zone slotsByDay weekStart clk rest (sess @ [?new], insert (slotKey best) used, reads + 1)"
      by (simp add: Let_def)
    with Cons.IH [OF d' c', of "reads + 1"] show ?thesis
      by (simp only:)
  qed
qed

text \<open>
  C2, as amended. Let every busy period end no earlier than it starts, let twice the
  buffer plus the minimum session length be positive (as in the default
  configuration), and let the host's time zone skip no local time (every local time
  is the local time of the instant it is converted to, as with a fixed offset from
  universal time). Then no two sessions of a schedule that generateSchedule returns
  share the same day of week, start time and end time: the slots of the week have
  pairwise different (day, start), no slot hosts two sessions, and two starts of one
  day are two instants. A schedule is returned unless the maximum session length is 0.
\<close>

theorem sessions_have_distinct_positions:
  assumes wf: "\<forall>timeBlock \<in> set timeBlocks. tb_startTime timeBlock \<le> tb_endTime timeBlock"
    and cfg: "0 < 2 * bufferTime cfg + minSessionLength cfg"
    and zone: "\<forall>l. localOf zone (utcOf zone l) = l"
  shows "(\<forall>schedule. generateSchedule cfg zone clk user tasks timeBlocks weekStart = Some schedule \<longrightarrow>
            distinct (map (\<lambda>s. (dayOfWeek s, startTime s, endTime s)) (sessions schedule)))
       \<and> (maxSessionLength cfg \<noteq> 0 \<longrightarrow>
            generateSchedule cfg zone clk user tasks timeBlocks weekStart \<noteq> None)"
proof -
  let ?inc = "filter (\<lambda>task. \<not> t_completed task) tasks"
  let ?triple = "\<lambda>s. (dayOfWeek s, startTime s, endTime s)"
  have triples: "distinct (map ?triple (sessions schedule))"
    if run: "generateSchedule cfg zone clk user tasks timeBlocks weekStart = Some schedule"
    for schedule
  proof -
    have pos: "distinct (map (\<lambda>s. (dayOfWeek s, startTime s)) (sessions schedule))"
    proof (cases "?inc = []")
      case True
      with run have "sessions schedule = []"
        by (auto simp: generateSchedule_def Let_def)
      then show ?thesis by simp
    next
      case False
      show ?thesis
      proof (cases "allocationQueue cfg clk ?inc")
        case None
        with False run show ?thesis
          by (simp add: generateSchedule_def Let_def)
      next
        case (Some qr)
        obtain queue reads where qr: "qr = (queue, reads)" by (cases qr)
        from False run Some qr have s: "sessions schedule =
            fst (allocate zone (availableSlots cfg timeBlocks) weekStart clk queue ([], {}, reads))"
          by (auto simp: generateSchedule_def Let_def split_beta)
        show ?thesis
          unfolding s
          by (rule allocate_distinct_positions [OF zone availableSlots_distinct [OF wf cfg]])
            simp_all
      qed
    qed
    have "map (\<lambda>s. (dayOfWeek s, startTime s)) (sessions schedule) =
        map (\<lambda>p. (fst p, fst (snd p))) (map ?triple (sessions schedule))"
      by simp
    with pos have "distinct (map (\<lambda>p. (fst p, fst (snd p))) (map ?triple (sessions schedule)))"
      by (simp only:)
    then have "distinct (map ?triple (sessions schedule)) \<and>
        inj_on (\<lambda>p::nat \<times> int \<times> int. (fst p, fst (snd p))) (set (map ?triple (sessions schedule)))"
      by (simp only: distinct_map)
    then show ?thesis
      by (rule conjunct1)
  qed
  have returns: "generateSchedule cfg zone clk user tasks timeBlocks weekStart \<noteq> None"
    if "maxSessionLength cfg \<noteq> 0"
    using that by (rule generateSchedule_returns)
  show ?thesis
    by (intro conjI allI impI triples returns)
qed

theorem sessions_have_distinct_positions_witness:
  "tb_startTime \<lparr>tb_day = 0, tb_startTime = 540, tb_endTime = 600, tb_type = ''busy''\<rparr>
     \<le> tb_endTime \<lparr>tb_day = 0, tb_startTime = 540, tb_endTime = 600, tb_type = ''busy''\<rparr>
   \<and> 0 < 2 * bufferTime DEFAULT_SCHEDULING_CONFIG + minSessionLength DEFAULT_SCHEDULING_CONFIG
   \<and> (\<forall>l. localOf \<lparr>localOf = (\<lambda>t. t - 300), utcOf = (\<lambda>l. l + 300)\<rparr>
            (utcOf \<lparr>localOf = (\<lambda>t. t - 300), utcOf = (\<lambda>l. l + 300)\<rparr> l) = l)
   \<and> (\<exists>schedule.
         generateSchedule DEFAULT_SCHEDULING_CONFIG
           \<lparr>localOf = (\<lambda>t. t - 300), utcOf = (\<lambda>l. l + 300)\<rparr> (\<lambda>n. 0) ''u''
           [\<lparr>t_id = ''t'', t_title = ''essay'', t_notes = None, t_dueDate = TBD,
        t_estimatedHours = Some 2, t_completed = False, t_activityId = None\<rparr>]
           [\<lparr>tb_day = 0, tb_startTime = 540, tb_endTime = 600, tb_type = ''busy''\<rparr>] 300 =
           Some schedule
       \<and> map (\<lambda>s. (dayOfWeek s, startTime s, endTime s)) (sessions schedule) =
           [(0, 305, 365), (0, 905, 965)]
       \<and> distinct (map (\<lambda>s. (dayOfWeek s, startTime s, endTime s)) (sessions schedule)))"
proof -
  let ?tb = "\<lparr>tb_day = 0, tb_startTime = 540, tb_endTime = 600, tb_type = ''busy''\<rparr>"
  let ?zone = "\<lparr>localOf = (\<lambda>t::int. t - 300), utcOf = (\<lambda>l::int. l + 300)\<rparr>"
  let ?run = "generateSchedule DEFAULT_SCHEDULING_CONFIG ?zone (\<lambda>n. 0) ''u''
           [\<lparr>t_id = ''t'', t_title = ''essay'', t_notes = None, t_dueDate = TBD,
        t_estimatedHours = Some 2, t_completed = False, t_activityId = None\<rparr>] [?tb] 300"
  have wf: "\<forall>timeBlock \<in> set [?tb]. tb_startTime timeBlock \<le> tb_endTime timeBlock"
    by simp
  have cfg: "0 < 2 * bufferTime DEFAULT_SCHEDULING_CONFIG + minSessionLength DEFAULT_SCHEDULING_CONFIG"
    by (simp add: DEFAULT_SCHEDULING_CONFIG_def)
  have zone: "\<forall>l. localOf ?zone (utcOf ?zone l) = l"
    by simp
  have "map_option (\<lambda>g. map (\<lambda>s. (dayOfWeek s, startTime s, endTime s)) (sessions g)) ?run =
      Some [(0, 305, 365), (0, 905, 965)]"
    by code_simp
  then obtain schedule where run: "?run = Some schedule"
    and triples: "map (\<lambda>s. (dayOfWeek s, startTime s, endTime s)) (sessions schedule) =
           [(0, 305, 365), (0, 905, 965)]"
    unfolding map_option_eq_Some by (elim exE conjE)
  from sessions_have_distinct_positions [OF wf cfg zone, of "\<lambda>n. 0" "''u''" _ 300] run
  have "distinct (map (\<lambda>s. (dayOfWeek s, startTime s, endTime s)) (sessions schedule))"
    by blast
  with run triples have "\<exists>schedule. ?run = Some schedule
       \<and> map (\<lambda>s. (dayOfWeek s, startTime s, endTime s)) (sessions schedule) =
           [(0, 305, 365), (0, 905, 965)]
       \<and> distinct (map (\<lambda>s. (dayOfWeek s, startTime s, endTime s)) (sessions schedule))"
    by (intro exI [of _ schedule] conjI)
  moreover have "tb_startTime ?tb \<le> tb_endTime ?tb"
    by simp
  ultimately show ?thesis
    using cfg zone by (intro conjI)
qed

text \<open>
  C2 as stated fails in three ways. (1) Busy periods that end before they start: two
  such periods on day 0, 100 to 0 and 200 to 0, give three slots on that day that all
  start at minute 5 and have different ends, hence different keys; the two one-hour
  chunks of a two-hour task take two of them, and both sessions are day 0 from minute
  5 to 65. (2) A negative buffer: with a buffer of -10 and a minimum session length of
  20, the periods 0 to 0 and 5 to 5 on day 0 give the slots -10 to 15 and -10 to 10, and
  two quarter-hour tasks get the same day, start and end. (3) A host whose clocks go
  forward from 02:00 to 03:00 on day 6: with the other days fully busy and the periods
  0 to 120 and 150 to 180 on day 6, two quarter-hour tasks start at the local times
  02:05, which is skipped and read as 03:05, and 03:05: the same instant, and so for
  the ends.
\<close>

theorem sessions_share_position_counterexample:
  "map_option (\<lambda>g. map (\<lambda>s. (dayOfWeek s, startTime s, endTime s)) (sessions g))
     (generateSchedule DEFAULT_SCHEDULING_CONFIG utcZone (\<lambda>n. 0) ''u''
        [\<lparr>t_id = ''t'', t_title = ''essay'', t_notes = None, t_dueDate = TBD,
        t_estimatedHours = Some 2, t_completed = False, t_activityId = None\<rparr>]
        [\<lparr>tb_day = 0, tb_startTime = 100, tb_endTime = 0, tb_type = ''busy''\<rparr>,
         \<lparr>tb_day = 0, tb_startTime = 200, tb_endTime = 0, tb_type = ''busy''\<rparr>] 0) =
     Some [(0, 5, 65), (0, 5, 65)]
   \<and> map_option (\<lambda>g. map (\<lambda>s. (dayOfWeek s, startTime s, endTime s)) (sessions g))
     (generateSchedule
        \<lparr>maxSessionLength = 60, minSessionLength = 20, bufferTime = - 10,
         maxStudyHoursPerWeek = 20\<rparr> utcZone (\<lambda>n. 0) ''u''
        [\<lparr>t_id = ''a'', t_title = ''essay'', t_notes = None, t_dueDate = TBD,
          t_estimatedHours = Some (1 / 4), t_completed = False, t_activityId = None\<rparr>,
         \<lparr>t_id = ''b'', t_title = ''notes'', t_notes = None, t_dueDate = TBD,
          t_estimatedHours = Some (1 / 4), t_completed = False, t_activityId = None\<rparr>]
        [\<lparr>tb_day = 0, tb_startTime = 0, tb_endTime = 0, tb_type = ''busy''\<rparr>,
         \<lparr>tb_day = 0, tb_startTime = 5, tb_endTime = 5, tb_type = ''busy''\<rparr>] 0) =
     Some [(0, - 70, 5), (0, - 70, 5)]
   \<and> map_option (\<lambda>g. map (\<lambda>s. (dayOfWeek s, startTime s, endTime s)) (sessions g))
     (generateSchedule DEFAULT_SCHEDULING_CONFIG
        \<lparr>localOf = (\<lambda>t. if t < 8760 then t else t + 60),
         utcOf = (\<lambda>l. if l < 8820 then l else l - 60)\<rparr> (\<lambda>n. 0) ''u''
        [\<lparr>t_id = ''a'', t_title = ''essay'', t_notes = None, t_dueDate = TBD,
          t_estimatedHours = Some (1 / 4), t_completed = False, t_activityId = None\<rparr>,
         \<lparr>t_id = ''b'', t_title = ''notes'', t_notes = None, t_dueDate = TBD,
          t_estimatedHours = Some (1 / 4), t_completed = False, t_activityId = None\<rparr>]
        [\<lparr>tb_day = 0, tb_startTime = 0, tb_endTime = 1440, tb_type = ''busy''\<rparr>,
         \<lparr>tb_day = 1, tb_startTime = 0, tb_endTime = 1440, tb_type = ''busy''\<rparr>,
         \<lparr>tb_day = 2, tb_startTime = 0, tb_endTime = 1440, tb_type = ''busy''\<rparr>,
         \<lparr>tb_day = 3, tb_startTime = 0, tb_endTime = 1440, tb_type = ''busy''\<rparr>,
         \<lparr>tb_day = 4, tb_startTime = 0, tb_endTime = 1440, tb_type = ''busy''\<rparr>,
         \<lparr>tb_day = 5, tb_startTime = 0, tb_endTime = 1440, tb_type = ''busy''\<rparr>,
         \<lparr>tb_day = 6, tb_startTime = 0, tb_endTime = 120, tb_type = ''busy''\<rparr>,
         \<lparr>tb_day = 6, tb_startTime = 150, tb_endTime = 180, tb_type = ''busy''\<rparr>] 0) =
     Some [(6, 8765, 8780), (6, 8765, 8780)]"
proof -
  have periods: "map_option (\<lambda>g. map (\<lambda>s. (dayOfWeek s, startTime s, endTime s)) (sessions g))
     (generateSchedule DEFAULT_SCHEDULING_CONFIG utcZone (\<lambda>n. 0) ''u''
        [\<lparr>t_id = ''t'', t_title = ''essay'', t_notes = None, t_dueDate = TBD,
        t_estimatedHours = Some 2, t_completed = False, t_activityId = None\<rparr>]
        [\<lparr>tb_day = 0, tb_startTime = 100, tb_endTime = 0, tb_type = ''busy''\<rparr>,
         \<lparr>tb_day = 0, tb_startTime = 200, tb_endTime = 0, tb_type = ''busy''\<rparr>] 0) =
     Some [(0, 5, 65), (0, 5, 65)]"
    by code_simp
  have buffer: "map_option (\<lambda>g. map (\<lambda>s. (dayOfWeek s, startTime s, endTime s)) (sessions g))
     (generateSchedule
        \<lparr>maxSessionLength = 60, minSessionLength = 20, bufferTime = - 10,
         maxStudyHoursPerWeek = 20\<rparr> utcZone (\<lambda>n. 0) ''u''
        [\<lparr>t_id = ''a'', t_title = ''essay'', t_notes = None, t_dueDate = TBD,
          t_estimatedHours = Some (1 / 4), t_completed = False, t_activityId = None\<rparr>,
         \<lparr>t_id = ''b'', t_title = ''notes'', t_notes = None, t_dueDate = TBD,
          t_estimatedHours = Some (1 / 4), t_completed = False, t_activityId = None\<rparr>]
        [\<lparr>tb_day = 0, tb_startTime = 0, tb_endTime = 0, tb_type = ''busy''\<rparr>,
         \<lparr>tb_day = 0, tb_startTime = 5, tb_endTime = 5, tb_type = ''busy''\<rparr>] 0) =
     Some [(0, - 70, 5), (0, - 70, 5)]"
    by code_simp
  have clocks: "map_option (\<lambda>g. map (\<lambda>s. (dayOfWeek s, startTime s, endTime s)) (sessions g))
     (generateSchedule DEFAULT_SCHEDULING_CONFIG
        \<lparr>localOf = (\<lambda>t. if t < 8760 then t else t + 60),
         utcOf = (\<lambda>l. if l < 8820 then l else l - 60)\<rparr> (\<lambda>n. 0) ''u''
        [\<lparr>t_id = ''a'', t_title = ''essay'', t_notes = None, t_dueDate = TBD,
          t_estimatedHours = Some (1 / 4), t_completed = False, t_activityId = None\<rparr>,
         \<lparr>t_id = ''b'', t_title = ''notes'', t_notes = None, t_dueDate = TBD,
          t_estimatedHours = Some (1 / 4), t_completed = False, t_activityId = None\<rparr>]
        [\<lparr>tb_day = 0, tb_startTime = 0, tb_endTime = 1440, tb_type = ''busy''\<rparr>,
         \<lparr>tb_day = 1, tb_startTime = 0, tb_endTime = 1440, tb_type = ''busy''\<rparr>,
         \<lparr>tb_day = 2, tb_startTime = 0, tb_endTime = 1440, tb_type = ''busy''\<rparr>,
         \<lparr>tb_day = 3, tb_startTime = 0, tb_endTime = 1440, tb_type = ''busy''\<rparr>,
         \<lparr>tb_day = 4, tb_startTime = 0, tb_endTime = 1440, tb_type = ''busy''\<rparr>,
         \<lparr>tb_day = 5, tb_startTime = 0, tb_endTime = 1440, tb_type = ''busy''\<rparr>,
         \<lparr>tb_day = 6, tb_startTime = 0, tb_endTime = 120, tb_type = ''busy''\<rparr>,
         \<lparr>tb_day = 6, tb_startTime = 150, tb_endTime = 180, tb_type = ''busy''\<rparr>] 0) =
     Some [(6, 8765, 8780), (6, 8765, 8780)]"
    by code_simp
  from periods buffer clocks show ?thesis
    by (intro conjI)
qed

end
